theory Spec2Isabelle
  imports Complex_Main
begin

section \<open>Data model\<close>

text \<open>
  A roster entry as the front end reads it (\<^verbatim>\<open>App.jsx\<close>): the fields the scanning
  workflow looks at. \<open>sid\<close> is the JavaScript field \<^verbatim>\<open>_id\<close>; \<open>status\<close> is a
  string (\<^verbatim>\<open>'Pending'\<close>, \<^verbatim>\<open>'Absent'\<close>, \<^verbatim>\<open>'Missing'\<close>), compared with \<^verbatim>\<open>===\<close>.
\<close>

record student =
  sid :: string
  rollNumber :: string
  name :: string
  status :: string
  isScanned :: bool

text \<open>
  A captured page (\<^verbatim>\<open>newPhoto\<close> in \<^verbatim>\<open>PhotoCapture.jsx\<close>). \<open>photo_id\<close> is the field
  \<^verbatim>\<open>id\<close>, a number taken from the clock (\<^verbatim>\<open>Date.now() + Math.random()\<close>); the
  model receives it from the environment.
\<close>

record photo =
  photo_id :: real
  data :: string
  pageNumber :: nat
  timestamp :: string
  studentRoll :: string

text \<open>The \<^verbatim>\<open>File\<close> objects built for the upload request.\<close>

record upload_file =
  fname :: string
  ftype :: string
  blob :: string

text \<open>A media stream is known by the ids of its tracks (\<^verbatim>\<open>stream.getTracks()\<close>).\<close>

record media_stream =
  tracks :: "nat list"

record constraints =
  facingMode :: string
  width_ideal :: nat
  height_ideal :: nat

text \<open>
  The state of the user interface. The first five fields are state of \<^verbatim>\<open>App\<close>
  (\<open>capturedPhotos\<close> is handed to \<^verbatim>\<open>PhotoCapture\<close> as a prop, and
  \<^verbatim>\<open>onPhotosUpdate\<close> is \<^verbatim>\<open>setCapturedPhotos\<close>); the other six are the local state
  of \<^verbatim>\<open>PhotoCapture\<close>. \<open>None\<close> stands for \<^verbatim>\<open>null\<close>.
\<close>

record state =
  students :: "student list"
  selectedStudent :: "student option"
  showPhotoCapture :: bool
  capturedPhotos :: "photo list"
  error :: "string option"
  currentPhoto :: "string option"
  isProcessing :: bool
  stream :: "media_stream option"
  cameraReady :: bool
  cameraError :: "string option"
  uploading :: bool

text \<open>What the handlers do to the outside world, in the order they do it.\<close>

datatype event =
    Alert string
  | GetUserMedia constraints
  | StopTrack nat
  | UploadScans string "upload_file list"
  | FetchStudents

text \<open>JavaScript truthiness of a value that is \<^verbatim>\<open>null\<close> or a string.\<close>

definition truthy :: "string option \<Rightarrow> bool" where
  "truthy v = (case v of None \<Rightarrow> False | Some t \<Rightarrow> t \<noteq> [])"

section \<open>Roster navigation (\<^verbatim>\<open>App.jsx\<close>)\<close>

text \<open>\<^verbatim>\<open>Array.prototype.findIndex\<close>; \<open>None\<close> is the result \<^verbatim>\<open>-1\<close>.\<close>

fun findIndexFrom :: "('a \<Rightarrow> bool) \<Rightarrow> 'a list \<Rightarrow> nat \<Rightarrow> nat option" where
  "findIndexFrom P [] i = None"
| "findIndexFrom P (x # xs) i = (if P x then Some i else findIndexFrom P xs (i + 1))"

definition findIndex :: "('a \<Rightarrow> bool) \<Rightarrow> 'a list \<Rightarrow> nat option" where
  "findIndex P xs = findIndexFrom P xs 0"

text \<open>
  The loop \<^verbatim>\<open>for (let i = start; i < students.length; i++) if (ok(students[i])) return students[i];\<close>
  followed by \<^verbatim>\<open>return null\<close>.
\<close>

function scanFrom :: "(student \<Rightarrow> bool) \<Rightarrow> student list \<Rightarrow> nat \<Rightarrow> student option" where
  "scanFrom ok sts i =
     (if i < length sts
      then (if ok (sts ! i) then Some (sts ! i) else scanFrom ok sts (i + 1))
      else None)"
  by pat_completeness auto
termination
  by (relation "measure (\<lambda>(ok, sts, i). length sts - i)") auto

declare scanFrom.simps [simp del]

text \<open>The test of the loop in \<^verbatim>\<open>src/App.jsx\<close>, line 104.\<close>

definition isPending :: "student \<Rightarrow> bool" where
  "isPending s = (status s = ''Pending'' \<and> \<not> isScanned s)"

text \<open>The test of the loop in the second copy of \<^verbatim>\<open>App.jsx\<close> (\<^verbatim>\<open>unnamed/part_000\<close>, line 134).\<close>

definition isUnscanned :: "student \<Rightarrow> bool" where
  "isUnscanned s = (\<not> isScanned s \<and> status s \<noteq> ''Absent'')"

text \<open>
  \<^verbatim>\<open>getNextStudent\<close> of \<^verbatim>\<open>src/App.jsx\<close>. The closure reads \<^verbatim>\<open>selectedStudent\<close> and
  \<^verbatim>\<open>students\<close>; both are arguments here.
\<close>

definition getNextStudent :: "student option \<Rightarrow> student list \<Rightarrow> student option" where
  "getNextStudent sel sts =
     (case sel of
        None \<Rightarrow> None
      | Some cur \<Rightarrow>
          if sts = [] then None
          else (case findIndex (\<lambda>s. sid s = sid cur) sts of
                  None \<Rightarrow> None
                | Some currentIndex \<Rightarrow> scanFrom isPending sts (currentIndex + 1)))"

text \<open>
  \<^verbatim>\<open>getNextStudent\<close> of \<^verbatim>\<open>unnamed/part_000\<close>. Its last branch
  (\<^verbatim>\<open>currentPage < totalPages\<close>) only logs and returns \<^verbatim>\<open>null\<close>, as the fall-through does.
\<close>

definition getNextStudent_p0 :: "student option \<Rightarrow> student list \<Rightarrow> student option" where
  "getNextStudent_p0 sel sts =
     (case sel of
        None \<Rightarrow> None
      | Some cur \<Rightarrow>
          if sts = [] then None
          else (case findIndex (\<lambda>s. sid s = sid cur) sts of
                  None \<Rightarrow> None
                | Some currentIndex \<Rightarrow> scanFrom isUnscanned sts (currentIndex + 1)))"

text \<open>
  The handlers of \<^verbatim>\<open>App\<close> are closures: they read the \<^verbatim>\<open>selectedStudent\<close> and
  \<^verbatim>\<open>students\<close> of the render that created them (the state \<open>c\<close>), and their
  setters update the latest state (\<open>t\<close>). A handler called in the render it belongs
  to has \<open>c = t\<close>.
\<close>

definition hasNextStudent :: "state \<Rightarrow> bool" where
  "hasNextStudent c = (getNextStudent (selectedStudent c) (students c) \<noteq> None)"

definition onClose :: "state \<Rightarrow> state" where
  "onClose t = t\<lparr>showPhotoCapture := False, selectedStudent := None, capturedPhotos := []\<rparr>"

text \<open>\<^verbatim>\<open>handleNextStudent\<close> of \<^verbatim>\<open>src/App.jsx\<close>.\<close>

definition App_handleNextStudent :: "state \<Rightarrow> state \<Rightarrow> state \<times> event list" where
  "App_handleNextStudent c t =
     (case getNextStudent (selectedStudent c) (students c) of
        Some nextStudent \<Rightarrow> (t\<lparr>selectedStudent := Some nextStudent, capturedPhotos := []\<rparr>, [])
      | None \<Rightarrow> (t\<lparr>showPhotoCapture := False, selectedStudent := None, capturedPhotos := []\<rparr>, []))"

text \<open>
  \<^verbatim>\<open>handleNextStudent\<close> of \<^verbatim>\<open>unnamed/part_000\<close>. Its alert text starts with the
  character U+1F389, written here as its four UTF-8 bytes.
\<close>

definition App_handleNextStudent_p0 :: "state \<Rightarrow> state \<Rightarrow> state \<times> event list" where
  "App_handleNextStudent_p0 c t =
     (case getNextStudent_p0 (selectedStudent c) (students c) of
        Some nextStudent \<Rightarrow> (t\<lparr>selectedStudent := Some nextStudent, capturedPhotos := []\<rparr>, [])
      | None \<Rightarrow>
          (t\<lparr>showPhotoCapture := False, selectedStudent := None, capturedPhotos := []\<rparr>,
           [Alert ([CHR 0xF0, CHR 0x9F, CHR 0x8E, CHR 0x89] @
                   '' All students scanned! Or no more students available for scanning.'')]))"

section \<open>Upload (\<^verbatim>\<open>handlePhotosCaptured\<close> of \<^verbatim>\<open>App.jsx\<close>)\<close>

text \<open>The decimal numeral a template literal prints for a non-negative integer.\<close>

function string_of_nat :: "nat \<Rightarrow> string" where
  "string_of_nat n =
     (if n < 10 then [''0123456789'' ! n]
      else string_of_nat (n div 10) @ [''0123456789'' ! (n mod 10)])"
  by pat_completeness auto
termination
  by (relation "measure id") auto

declare string_of_nat.simps [simp del]

text \<open>JavaScript \<^verbatim>\<open>a || b\<close> on a string that may be missing.\<close>

definition orElse :: "string option \<Rightarrow> string \<Rightarrow> string" where
  "orElse v d = (case v of None \<Rightarrow> d | Some t \<Rightarrow> if t = [] then d else t)"

text \<open>
  \<^verbatim>\<open>Promise.all(photosArray.map(async (photo, index) => ...))\<close>: every page is fetched
  and wrapped in a \<^verbatim>\<open>File\<close> named after its index. \<open>fb\<close> is \<^verbatim>\<open>fetch(photo.data)\<close>
  followed by \<^verbatim>\<open>response.blob()\<close>, \<open>None\<close> when either throws; \<open>Inl k\<close> says that
  the conversion of image \<open>k\<close> failed. When several conversions fail,
  \<^verbatim>\<open>Promise.all\<close> reports the one that fails first in time; the model reports the lowest
  \<open>k\<close>, which only the text of the error message of \<^verbatim>\<open>unnamed/part_000\<close> shows.
\<close>

fun imageFilesFrom :: "(string \<Rightarrow> string option) \<Rightarrow> nat \<Rightarrow> photo list \<Rightarrow> nat + upload_file list" where
  "imageFilesFrom fb index [] = Inr []"
| "imageFilesFrom fb index (p # ps) =
     (case fb (data p) of
        None \<Rightarrow> Inl (index + 1)
      | Some b \<Rightarrow>
          (case imageFilesFrom fb (index + 1) ps of
             Inl k \<Rightarrow> Inl k
           | Inr fs \<Rightarrow>
               Inr (\<lparr>fname = ''page_'' @ string_of_nat (index + 1) @ ''.jpg'',
                     ftype = ''image/jpeg'', blob = b\<rparr> # fs)))"

definition imageFiles :: "(string \<Rightarrow> string option) \<Rightarrow> photo list \<Rightarrow> nat + upload_file list" where
  "imageFiles fb photosArray = imageFilesFrom fb 0 photosArray"

text \<open>What \<^verbatim>\<open>apiService.uploadScans\<close> and \<^verbatim>\<open>apiService.getStudents\<close> can answer.\<close>

datatype upload_result =
    UploadResponse bool "string option"
  | UploadThrows "string option"

datatype fetch_result =
    FetchOk "student list"
  | FetchNotSuccess
  | FetchThrows string

text \<open>The environment of one handler call: the browser and the back end.\<close>

record env =
  getUserMedia :: "constraints \<Rightarrow> media_stream option"
  hasImageCapture :: bool
  takePhoto :: "string option"
  canvasCapture :: "string option"
  fetchBlob :: "string \<Rightarrow> string option"
  uploadScans :: "string \<Rightarrow> upload_file list \<Rightarrow> upload_result"
  getStudents :: fetch_result

text \<open>
  \<^verbatim>\<open>fetchStudents\<close>: it catches its own errors. The pagination and loading fields it
  also sets are not part of the model.
\<close>

definition fetchStudents :: "fetch_result \<Rightarrow> state \<Rightarrow> state" where
  "fetchStudents r a =
     (case r of
        FetchOk l \<Rightarrow> a\<lparr>error := None, students := l\<rparr>
      | FetchNotSuccess \<Rightarrow> a\<lparr>error := None\<rparr>
      | FetchThrows m \<Rightarrow> a\<lparr>error := Some m\<rparr>)"

text \<open>How an \<^verbatim>\<open>await onFinish(...)\<close> ends: with a value, or with an exception.\<close>

datatype completion = Returned bool | Threw

text \<open>\<^verbatim>\<open>handlePhotosCaptured\<close> of \<^verbatim>\<open>src/App.jsx\<close>.\<close>

definition handlePhotosCaptured ::
  "env \<Rightarrow> photo list \<Rightarrow> state \<Rightarrow> completion \<times> state \<times> event list" where
  "handlePhotosCaptured e photosArray a =
     (case selectedStudent a of
        None \<Rightarrow> (Returned False, a, [])
      | Some st \<Rightarrow>
          if photosArray = [] then (Returned False, a, [])
          else
            (case imageFiles (fetchBlob e) photosArray of
               Inl k \<Rightarrow> (Returned False, a\<lparr>error := Some ''Failed to upload scanned images''\<rparr>, [])
             | Inr files \<Rightarrow>
                 (case uploadScans e (sid st) files of
                    UploadThrows m \<Rightarrow>
                      (Returned False, a\<lparr>error := Some ''Failed to upload scanned images''\<rparr>,
                       [UploadScans (sid st) files])
                  | UploadResponse success message \<Rightarrow>
                      if success
                      then (Returned True, fetchStudents (getStudents e) a,
                            [UploadScans (sid st) files, FetchStudents])
                      else (Returned False,
                            a\<lparr>error := Some (orElse message ''Failed to upload scans'')\<rparr>,
                            [UploadScans (sid st) files]))))"

text \<open>
  \<^verbatim>\<open>handlePhotosCaptured\<close> of \<^verbatim>\<open>unnamed/part_000\<close>, which moves to the next student
  itself. Its call of \<^verbatim>\<open>getNextStudent()\<close> reads the roster of the render the handler
  belongs to, not the refreshed one.
\<close>

definition handlePhotosCaptured_p0 ::
  "env \<Rightarrow> photo list \<Rightarrow> state \<Rightarrow> completion \<times> state \<times> event list" where
  "handlePhotosCaptured_p0 e photosArray a =
     (case selectedStudent a of
        None \<Rightarrow> (Returned False, a, [])
      | Some st \<Rightarrow>
          if photosArray = [] then (Returned False, a, [])
          else
            (case imageFiles (fetchBlob e) photosArray of
               Inl k \<Rightarrow>
                 (Returned False,
                  a\<lparr>error := Some (''Failed to convert image '' @ string_of_nat k)\<rparr>, [])
             | Inr files \<Rightarrow>
                 (case uploadScans e (sid st) files of
                    UploadThrows m \<Rightarrow>
                      (Returned False,
                       a\<lparr>error := Some (orElse m ''Failed to upload scanned images'')\<rparr>,
                       [UploadScans (sid st) files])
                  | UploadResponse success message \<Rightarrow>
                      if success
                      then
                        (case getNextStudent_p0 (selectedStudent a) (students a) of
                           Some nextStudent \<Rightarrow>
                             (Returned True,
                              (fetchStudents (getStudents e) (a\<lparr>error := None\<rparr>))
                                \<lparr>selectedStudent := Some nextStudent, capturedPhotos := []\<rparr>,
                              [UploadScans (sid st) files, FetchStudents])
                         | None \<Rightarrow>
                             (Returned True, fetchStudents (getStudents e) (a\<lparr>error := None\<rparr>),
                              [UploadScans (sid st) files, FetchStudents]))
                      else (Returned False,
                            a\<lparr>error := Some (orElse message ''Failed to upload scans'')\<rparr>,
                            [UploadScans (sid st) files]))))"

section \<open>The capture session (\<^verbatim>\<open>PhotoCapture.jsx\<close>)\<close>

subsection \<open>Camera\<close>

text \<open>\<^verbatim>\<open>if (stream) { stream.getTracks().forEach((track) => track.stop()); }\<close>\<close>

definition stopTracks :: "media_stream option \<Rightarrow> event list" where
  "stopTracks st = (case st of None \<Rightarrow> [] | Some ms \<Rightarrow> map StopTrack (tracks ms))"

definition rearCamera :: constraints where
  "rearCamera = \<lparr>facingMode = ''environment'', width_ideal = 1280, height_ideal = 720\<rparr>"

definition frontCamera :: constraints where
  "frontCamera = \<lparr>facingMode = ''user'', width_ideal = 1280, height_ideal = 720\<rparr>"

text \<open>
  \<^verbatim>\<open>setupCamera\<close>. It is a \<^verbatim>\<open>useCallback\<close> closure over \<^verbatim>\<open>stream\<close>: \<open>held\<close> is the
  stream of the render that created the closure. The result is the returned boolean,
  the new state and the calls made.
\<close>

definition setupCamera ::
  "(constraints \<Rightarrow> media_stream option) \<Rightarrow> media_stream option \<Rightarrow> state \<Rightarrow> bool \<times> state \<times> event list" where
  "setupCamera gum held s =
     (case gum rearCamera of
        Some mediaStream \<Rightarrow>
          (True, s\<lparr>cameraError := None, stream := Some mediaStream, cameraReady := True\<rparr>,
           stopTracks held @ [GetUserMedia rearCamera])
      | None \<Rightarrow>
          (case gum frontCamera of
             Some fallbackStream \<Rightarrow>
               (True, s\<lparr>cameraError := None, stream := Some fallbackStream, cameraReady := True\<rparr>,
                stopTracks held @ [GetUserMedia rearCamera, GetUserMedia frontCamera])
           | None \<Rightarrow>
               (False,
                s\<lparr>cameraError := Some ''Camera access failed. Please check permissions and ensure camera is available.'',
                  cameraReady := False\<rparr>,
                stopTracks held @ [GetUserMedia rearCamera, GetUserMedia frontCamera])))"

text \<open>
  \<^verbatim>\<open>setupCamera\<close> of the second component (lines 772 to 814): the same calls, another
  error message.
\<close>

definition setupCamera_b ::
  "(constraints \<Rightarrow> media_stream option) \<Rightarrow> media_stream option \<Rightarrow> state \<Rightarrow> bool \<times> state \<times> event list" where
  "setupCamera_b gum held s =
     (case gum rearCamera of
        Some mediaStream \<Rightarrow>
          (True, s\<lparr>cameraError := None, stream := Some mediaStream, cameraReady := True\<rparr>,
           stopTracks held @ [GetUserMedia rearCamera])
      | None \<Rightarrow>
          (case gum frontCamera of
             Some fallbackStream \<Rightarrow>
               (True, s\<lparr>cameraError := None, stream := Some fallbackStream, cameraReady := True\<rparr>,
                stopTracks held @ [GetUserMedia rearCamera, GetUserMedia frontCamera])
           | None \<Rightarrow>
               (False,
                s\<lparr>cameraError := Some ''Camera access failed. Please check permissions.'',
                  cameraReady := False\<rparr>,
                stopTracks held @ [GetUserMedia rearCamera, GetUserMedia frontCamera])))"

text \<open>\<^verbatim>\<open>handleRetryCamera\<close>: a handler of the current render, so it holds the current stream.\<close>

definition handleRetryCamera ::
  "(constraints \<Rightarrow> media_stream option) \<Rightarrow> state \<Rightarrow> bool \<times> state \<times> event list" where
  "handleRetryCamera gum s = setupCamera gum (stream s) (s\<lparr>cameraError := None, cameraReady := False\<rparr>)"

text \<open>The local state of a freshly mounted \<^verbatim>\<open>PhotoCapture\<close> (its \<^verbatim>\<open>useState\<close> initial values).\<close>

definition firstRender :: "state \<Rightarrow> state" where
  "firstRender a =
     a\<lparr>currentPhoto := None, isProcessing := False, stream := None,
       cameraReady := False, cameraError := None, uploading := False\<rparr>"

text \<open>
  The camera effect, \<^verbatim>\<open>useEffect(() => { initCamera(); return cleanup; }, [])\<close>. Its
  dependency list is empty, so it runs once, after the first render, and both
  \<^verbatim>\<open>setupCamera\<close> and the cleanup it returns are closures of the first render: the
  \<^verbatim>\<open>stream\<close> they read is the one of \<open>firstRender\<close>. \<open>mount\<close> is the effect,
  \<open>unmount\<close> runs the cleanup.
\<close>

definition mount :: "(constraints \<Rightarrow> media_stream option) \<Rightarrow> state \<Rightarrow> bool \<times> state \<times> event list" where
  "mount gum a = setupCamera gum (stream (firstRender a)) (firstRender a)"

definition unmount :: "state \<Rightarrow> event list" where
  "unmount s = stopTracks (stream (firstRender s))"

text \<open>The same effect in the second component (lines 1077 to 1098).\<close>

definition mount_b :: "(constraints \<Rightarrow> media_stream option) \<Rightarrow> state \<Rightarrow> bool \<times> state \<times> event list" where
  "mount_b gum a = setupCamera_b gum (stream (firstRender a)) (firstRender a)"

text \<open>
  The three ways out of a session. Closing (\<^verbatim>\<open>onClose\<close> of \<^verbatim>\<open>App\<close>) stops rendering
  \<^verbatim>\<open>PhotoCapture\<close>, which unmounts it. Moving to the next student keeps the component
  mounted while a next student exists (\<^verbatim>\<open>showPhotoCapture && selectedStudent\<close> stays
  true), so no effect or cleanup runs; without one the session closes.
\<close>

definition closeSession :: "state \<Rightarrow> state \<times> event list" where
  "closeSession s = (onClose s, unmount s)"

definition advanceSession :: "state \<Rightarrow> state \<times> event list" where
  "advanceSession s =
     (let (t, ev) = App_handleNextStudent s s
      in if showPhotoCapture t \<and> selectedStudent t \<noteq> None then (t, ev) else (t, ev @ unmount s))"

text \<open>The tracks a sequence of calls leaves running.\<close>

fun liveTracks :: "(constraints \<Rightarrow> media_stream option) \<Rightarrow> event list \<Rightarrow> nat list \<Rightarrow> nat list" where
  "liveTracks gum [] live = live"
| "liveTracks gum (GetUserMedia c # ev) live =
     liveTracks gum ev (live @ (case gum c of None \<Rightarrow> [] | Some ms \<Rightarrow> tracks ms))"
| "liveTracks gum (StopTrack t # ev) live = liveTracks gum ev (filter (\<lambda>u. u \<noteq> t) live)"
| "liveTracks gum (_ # ev) live = liveTracks gum ev live"

text \<open>
  What the operator can press while \<^verbatim>\<open>cameraError\<close> is set: each button that is
  rendered, with its \<^verbatim>\<open>disabled\<close> attribute. The content area is a conditional on
  \<^verbatim>\<open>cameraError\<close> first, so in that state only the header and the error panel have
  buttons. In the first component (lines 505 to 532 and 545 to 566) two of them click the
  hidden file input, whose \<^verbatim>\<open>onChange\<close> is \<^verbatim>\<open>handleFileSelect\<close>. The second
  component (lines 1156 to 1174 and 1178 to 1192) has no file input and no
  \<^verbatim>\<open>handleFileSelect\<close>.
\<close>

datatype control = TakePhoto | ChooseFromFiles | Close | RetryCamera | UseFileUploadInstead

text \<open>\<^verbatim>\<open>disabled={isProcessing || !cameraReady || uploading}\<close> of the capture buttons.\<close>

definition captureDisabled :: "state \<Rightarrow> bool" where
  "captureDisabled s = (isProcessing s \<or> \<not> cameraReady s \<or> uploading s)"

definition headerActions :: "state \<Rightarrow> (control \<times> bool) list" where
  "headerActions s =
     [(TakePhoto, captureDisabled s),
      (ChooseFromFiles, uploading s),
      (Close, False)]"

definition cameraErrorActions :: "state \<Rightarrow> (control \<times> bool) list" where
  "cameraErrorActions s =
     (if truthy (cameraError s)
      then [(RetryCamera, uploading s), (UseFileUploadInstead, uploading s)]
      else [])"

definition headerActions_b :: "state \<Rightarrow> (control \<times> bool) list" where
  "headerActions_b s =
     [(TakePhoto, captureDisabled s),
      (Close, False)]"

definition cameraErrorActions_b :: "state \<Rightarrow> (control \<times> bool) list" where
  "cameraErrorActions_b s =
     (if truthy (cameraError s) then [(RetryCamera, uploading s)] else [])"

text \<open>The buttons that open the file picker.\<close>

definition opensFilePicker :: "control \<Rightarrow> bool" where
  "opensFilePicker c = (c = ChooseFromFiles \<or> c = UseFileUploadInstead)"

subsection \<open>Capturing and importing a frame\<close>

text \<open>
  \<^verbatim>\<open>handleTakePhoto\<close> of the first component, with \<^verbatim>\<open>captureWithCanvasFallback\<close>
  inlined. \<open>takePhoto e\<close> is the data URL read from \<^verbatim>\<open>imageCapture.takePhoto()\<close>,
  \<open>canvasCapture e\<close> the one drawn on the canvas; \<open>None\<close> when the path throws.
\<close>

definition captureWithCanvasFallback :: "env \<Rightarrow> state \<Rightarrow> state \<times> event list" where
  "captureWithCanvasFallback e s =
     (case canvasCapture e of
        Some imageDataURL \<Rightarrow> (s\<lparr>currentPhoto := Some imageDataURL\<rparr>, [])
      | None \<Rightarrow>
          (s\<lparr>isProcessing := False\<rparr>,
           [Alert ''Failed to capture photo. Please try again or use file upload.'']))"

definition handleTakePhoto :: "env \<Rightarrow> state \<Rightarrow> state \<times> event list" where
  "handleTakePhoto e s =
     (if isProcessing s \<or> \<not> cameraReady s \<or> stream s = None then (s, [])
      else
        (let s1 = s\<lparr>isProcessing := True\<rparr> in
         if hasImageCapture e
         then (case takePhoto e of
                 Some d \<Rightarrow> (s1\<lparr>currentPhoto := Some d, isProcessing := False\<rparr>, [])
               | None \<Rightarrow> captureWithCanvasFallback e s1)
         else captureWithCanvasFallback e s1))"

text \<open>\<^verbatim>\<open>handleFileSelect\<close>: the chosen file, if any, with what the \<^verbatim>\<open>FileReader\<close> gives.\<close>

record picked_file =
  file_type :: string
  file_size :: nat
  file_dataURL :: "string option"

definition handleFileSelect :: "picked_file option \<Rightarrow> state \<Rightarrow> state \<times> event list" where
  "handleFileSelect chosen s =
     (case chosen of
        None \<Rightarrow> (s, [])
      | Some file \<Rightarrow>
          if take 6 (file_type file) \<noteq> ''image/''
          then (s, [Alert ''Please select an image file (JPEG, PNG, etc.)''])
          else if file_size file > 10 * 1024 * 1024
          then (s, [Alert ''Image size should be less than 10MB''])
          else (case file_dataURL file of
                  Some d \<Rightarrow> (s\<lparr>currentPhoto := Some d\<rparr>, [])
                | None \<Rightarrow> (s, [Alert ''Error reading file. Please try another image.''])))"

subsection \<open>The page buffer\<close>

text \<open>\<^verbatim>\<open>studentData.rollNumber\<close>, with the placeholder used when no student is given.\<close>

definition studentDataRoll :: "state \<Rightarrow> string" where
  "studentDataRoll s = (case selectedStudent s of None \<Rightarrow> ''Unknown'' | Some st \<Rightarrow> rollNumber st)"

text \<open>
  \<^verbatim>\<open>addCurrentPhotoToCaptured\<close>: \<open>newId\<close> is \<^verbatim>\<open>Date.now() + Math.random()\<close> and
  \<open>now\<close> is \<^verbatim>\<open>new Date().toISOString()\<close>.
\<close>

definition addCurrentPhotoToCaptured :: "real \<Rightarrow> string \<Rightarrow> state \<Rightarrow> bool \<times> state" where
  "addCurrentPhotoToCaptured newId now s =
     (case currentPhoto s of
        None \<Rightarrow> (False, s)
      | Some d \<Rightarrow>
          if d = [] then (False, s)
          else
            (True,
             s\<lparr>capturedPhotos :=
                 capturedPhotos s @
                   [\<lparr>photo_id = newId, data = d, pageNumber = length (capturedPhotos s) + 1,
                     timestamp = now, studentRoll = studentDataRoll s\<rparr>],
               currentPhoto := None\<rparr>))"

definition handleKeepAndAddMore :: "real \<Rightarrow> string \<Rightarrow> state \<Rightarrow> state" where
  "handleKeepAndAddMore newId now s =
     (if truthy (currentPhoto s) \<and> \<not> isProcessing s
      then snd (addCurrentPhotoToCaptured newId now s)
      else s)"

definition handleRetake :: "state \<Rightarrow> state" where
  "handleRetake s = s\<lparr>currentPhoto := None\<rparr>"

definition handleRemovePhoto :: "real \<Rightarrow> state \<Rightarrow> state" where
  "handleRemovePhoto photoId s =
     s\<lparr>capturedPhotos := filter (\<lambda>photo. photo_id photo \<noteq> photoId) (capturedPhotos s)\<rparr>"

subsection \<open>Finishing\<close>

text \<open>
  The array \<^verbatim>\<open>finalPhotos\<close> that \<^verbatim>\<open>handleFinish\<close> builds (the same in both
  components): \<open>nowId\<close> is \<^verbatim>\<open>Date.now()\<close>.
\<close>

definition finalPhotos :: "real \<Rightarrow> string \<Rightarrow> state \<Rightarrow> photo list" where
  "finalPhotos nowId now s =
     capturedPhotos s @
       (case currentPhoto s of
          None \<Rightarrow> []
        | Some d \<Rightarrow>
            if d = [] then []
            else [\<lparr>photo_id = nowId, data = d, pageNumber = length (capturedPhotos s) + 1,
                   timestamp = now, studentRoll = studentDataRoll s\<rparr>])"

definition totalPhotos :: "state \<Rightarrow> nat" where
  "totalPhotos s = length (capturedPhotos s) + (if truthy (currentPhoto s) then 1 else 0)"

text \<open>\<^verbatim>\<open>handleFinish\<close> of the first component (lines 254 to 310).\<close>

definition handleFinish ::
  "(photo list \<Rightarrow> state \<Rightarrow> completion \<times> state \<times> event list) \<Rightarrow> real \<Rightarrow> string \<Rightarrow> state
     \<Rightarrow> state \<times> event list" where
  "handleFinish onFinish nowId now s =
     (if totalPhotos s = 0
      then (s, [Alert ''Please capture at least one photo before finishing.''])
      else
        (case onFinish (finalPhotos nowId now s) (s\<lparr>uploading := True\<rparr>) of
           (Returned success, s1, ev) \<Rightarrow>
             if success
             then (s1\<lparr>currentPhoto := None, capturedPhotos := [], uploading := False\<rparr>, ev)
             else (s1\<lparr>uploading := False\<rparr>, ev)
         | (Threw, s1, ev) \<Rightarrow>
             (s1\<lparr>uploading := False\<rparr>,
              ev @ [Alert ''Error finishing session. Please try again.''])))"

text \<open>
  \<^verbatim>\<open>handleFinish\<close> of the second component (lines 923 to 979). After a success it also
  moves on: \<open>hasNext\<close> is the prop \<^verbatim>\<open>hasNextStudent\<close>, \<open>onNext\<close> and \<open>onCloseProp\<close>
  are the props \<^verbatim>\<open>onNextStudent\<close> and \<^verbatim>\<open>onClose\<close> applied to the latest state.
\<close>

definition handleFinish_b ::
  "(photo list \<Rightarrow> state \<Rightarrow> completion \<times> state \<times> event list) \<Rightarrow> bool
     \<Rightarrow> (state \<Rightarrow> state \<times> event list) \<Rightarrow> (state \<Rightarrow> state) \<Rightarrow> real \<Rightarrow> string \<Rightarrow> state
     \<Rightarrow> state \<times> event list" where
  "handleFinish_b onFinish hasNext onNext onCloseProp nowId now s =
     (if totalPhotos s = 0
      then (s, [Alert ''Please capture at least one photo before finishing.''])
      else
        (case onFinish (finalPhotos nowId now s) (s\<lparr>uploading := True\<rparr>) of
           (Returned success, s1, ev) \<Rightarrow>
             if success
             then
               (let s2 = s1\<lparr>currentPhoto := None, capturedPhotos := [], uploading := False\<rparr>
                in if hasNext
                   then (fst (onNext s2), ev @ snd (onNext s2))
                   else (onCloseProp s2, ev))
             else (s1\<lparr>uploading := False\<rparr>, ev)
         | (Threw, s1, ev) \<Rightarrow> (s1\<lparr>uploading := False\<rparr>, ev)))"

text \<open>
  \<^verbatim>\<open>handleNextStudent\<close> of \<^verbatim>\<open>PhotoCapture\<close> (the button and the key N): it drops the
  pending frame and the buffer, then calls the prop \<^verbatim>\<open>onNextStudent\<close>.
\<close>

definition PhotoCapture_handleNextStudent :: "(state \<Rightarrow> state \<times> event list) \<Rightarrow> state \<Rightarrow> state \<times> event list" where
  "PhotoCapture_handleNextStudent onNext s = onNext (s\<lparr>currentPhoto := None, capturedPhotos := []\<rparr>)"

section \<open>Starting a session\<close>

text \<open>The initial values of every \<^verbatim>\<open>useState\<close> of \<^verbatim>\<open>App\<close> and \<^verbatim>\<open>PhotoCapture\<close>.\<close>

definition initialState :: state where
  "initialState =
     \<lparr>students = [], selectedStudent = None, showPhotoCapture = False, capturedPhotos = [],
      error = None, currentPhoto = None, isProcessing = False, stream = None,
      cameraReady = False, cameraError = None, uploading = False\<rparr>"

text \<open>\<^verbatim>\<open>handleScanRequest\<close> of \<^verbatim>\<open>App\<close>: the operator picks a student to scan.\<close>

definition handleScanRequest :: "student \<Rightarrow> state \<Rightarrow> state" where
  "handleScanRequest st a =
     a\<lparr>selectedStudent := Some st, showPhotoCapture := True, capturedPhotos := []\<rparr>"

section \<open>Properties of the roster navigation\<close>

lemma findIndexFrom_Some:
  "findIndexFrom P xs k = Some i \<Longrightarrow>
     k \<le> i \<and> i - k < length xs \<and> P (xs ! (i - k)) \<and> (\<forall>j < i - k. \<not> P (xs ! j))"
proof (induction xs arbitrary: k)
  case Nil
  then show ?case by simp
next
  case (Cons x xs)
  show ?case
  proof (cases "P x")
    case True
    with Cons.prems show ?thesis by simp
  next
    case False
    with Cons.prems have rec: "findIndexFrom P xs (k + 1) = Some i" by simp
    from Cons.IH [OF rec] have ih:
      "k + 1 \<le> i" "i - (k + 1) < length xs" "P (xs ! (i - (k + 1)))"
      "\<forall>j < i - (k + 1). \<not> P (xs ! j)" by auto
    have idx: "i - k = Suc (i - (k + 1))" using ih(1) by simp
    have "\<forall>j < i - k. \<not> P ((x # xs) ! j)"
    proof (intro allI impI)
      fix j assume "j < i - k"
      then show "\<not> P ((x # xs) ! j)"
        using False ih(4) idx by (cases j) auto
    qed
    then show ?thesis using ih idx by simp
  qed
qed

lemma findIndexFrom_None: "findIndexFrom P xs k = None \<longleftrightarrow> (\<forall>x \<in> set xs. \<not> P x)"
  by (induction xs arbitrary: k) auto

lemma findIndex_Some:
  "findIndex P xs = Some i \<Longrightarrow> i < length xs \<and> P (xs ! i) \<and> (\<forall>j < i. \<not> P (xs ! j))"
  using findIndexFrom_Some [of P xs 0 i] by (simp add: findIndex_def)

lemma findIndex_None: "findIndex P xs = None \<longleftrightarrow> (\<forall>x \<in> set xs. \<not> P x)"
  by (simp add: findIndex_def findIndexFrom_None)

lemma scanFrom_Some:
  "scanFrom ok sts i = Some s \<Longrightarrow>
     \<exists>j. i \<le> j \<and> j < length sts \<and> sts ! j = s \<and> ok s \<and> (\<forall>k. i \<le> k \<and> k < j \<longrightarrow> \<not> ok (sts ! k))"
proof (induction ok sts i rule: scanFrom.induct)
  case (1 ok sts i)
  show ?case
  proof (cases "i < length sts")
    case False
    with "1.prems" show ?thesis by (simp add: scanFrom.simps)
  next
    case inb: True
    show ?thesis
    proof (cases "ok (sts ! i)")
      case True
      with inb "1.prems" have "sts ! i = s" by (simp add: scanFrom.simps)
      with inb True show ?thesis by (intro exI [of _ i]) auto
    next
      case False
      with inb "1.prems" have "scanFrom ok sts (i + 1) = Some s"
        by (simp add: scanFrom.simps)
      from "1.IH" [OF inb False this] obtain j where j:
        "i + 1 \<le> j" "j < length sts" "sts ! j = s" "ok s"
        "\<forall>k. i + 1 \<le> k \<and> k < j \<longrightarrow> \<not> ok (sts ! k)" by blast
      have "\<forall>k. i \<le> k \<and> k < j \<longrightarrow> \<not> ok (sts ! k)"
      proof (intro allI impI)
        fix k assume k: "i \<le> k \<and> k < j"
        show "\<not> ok (sts ! k)"
        proof (cases "k = i")
          case True
          with False show ?thesis by simp
        next
          case False
          with k j(5) show ?thesis by simp
        qed
      qed
      with j show ?thesis by (intro exI [of _ j]) auto
    qed
  qed
qed

lemma scanFrom_None:
  "scanFrom ok sts i = None \<longleftrightarrow> (\<forall>j. i \<le> j \<and> j < length sts \<longrightarrow> \<not> ok (sts ! j))"
proof (induction ok sts i rule: scanFrom.induct)
  case (1 ok sts i)
  show ?case
  proof (cases "i < length sts")
    case False
    then show ?thesis by (auto simp: scanFrom.simps)
  next
    case inb: True
    show ?thesis
    proof (cases "ok (sts ! i)")
      case True
      with inb show ?thesis by (auto simp: scanFrom.simps)
    next
      case False
      have "scanFrom ok sts i = scanFrom ok sts (i + 1)"
        using inb False by (simp add: scanFrom.simps)
      also have "\<dots> = None \<longleftrightarrow> (\<forall>j. i + 1 \<le> j \<and> j < length sts \<longrightarrow> \<not> ok (sts ! j))"
        using "1.IH" [OF inb False] .
      also have "\<dots> \<longleftrightarrow> (\<forall>j. i \<le> j \<and> j < length sts \<longrightarrow> \<not> ok (sts ! j))"
      proof
        assume h: "\<forall>j. i + 1 \<le> j \<and> j < length sts \<longrightarrow> \<not> ok (sts ! j)"
        show "\<forall>j. i \<le> j \<and> j < length sts \<longrightarrow> \<not> ok (sts ! j)"
        proof (intro allI impI)
          fix j assume j: "i \<le> j \<and> j < length sts"
          show "\<not> ok (sts ! j)"
          proof (cases "j = i")
            case True
            with False show ?thesis by simp
          next
            case False
            with j h show ?thesis by simp
          qed
        qed
      next
        assume "\<forall>j. i \<le> j \<and> j < length sts \<longrightarrow> \<not> ok (sts ! j)"
        then show "\<forall>j. i + 1 \<le> j \<and> j < length sts \<longrightarrow> \<not> ok (sts ! j)" by simp
      qed
      finally show ?thesis .
    qed
  qed
qed


text \<open>
  What \<^verbatim>\<open>getNextStudent\<close> of \<^verbatim>\<open>src/App.jsx\<close> returns: the first student after the
  first entry with the current id that is pending and not scanned.
\<close>

lemma getNextStudent_Some:
  assumes "getNextStudent (Some cur) sts = Some s"
  shows "\<exists>i j. findIndex (\<lambda>x. sid x = sid cur) sts = Some i \<and> i < j \<and> j < length sts \<and>
           sts ! j = s \<and> status s = ''Pending'' \<and> \<not> isScanned s \<and>
           (\<forall>k. i < k \<and> k < j \<longrightarrow> \<not> isPending (sts ! k))"
proof -
  from assms obtain i where i: "findIndex (\<lambda>x. sid x = sid cur) sts = Some i"
    and sc: "scanFrom isPending sts (i + 1) = Some s"
    by (auto simp: getNextStudent_def split: if_splits option.splits)
  from scanFrom_Some [OF sc] obtain j where j:
    "i + 1 \<le> j" "j < length sts" "sts ! j = s" "isPending s"
    "\<forall>k. i + 1 \<le> k \<and> k < j \<longrightarrow> \<not> isPending (sts ! k)" by blast
  have ij: "i < j" using j(1) by simp
  have pend: "status s = ''Pending''" "\<not> isScanned s"
    using j(4) by (simp_all add: isPending_def)
  have gap: "\<forall>k. i < k \<and> k < j \<longrightarrow> \<not> isPending (sts ! k)" using j(5) by simp
  show ?thesis
    by (rule exI [of _ i], rule exI [of _ j]) (use i ij j(2,3) pend gap in blast)
qed

lemma getNextStudent_None:
  "getNextStudent (Some cur) sts = None \<longleftrightarrow>
     (case findIndex (\<lambda>x. sid x = sid cur) sts of
        None \<Rightarrow> True
      | Some i \<Rightarrow> \<forall>j. i < j \<and> j < length sts \<longrightarrow> \<not> isPending (sts ! j))"
proof (cases "findIndex (\<lambda>x. sid x = sid cur) sts")
  case None
  then show ?thesis by (simp add: getNextStudent_def)
next
  case (Some i)
  then have "sts \<noteq> []" using findIndex_Some [OF Some] by auto
  then have "getNextStudent (Some cur) sts = scanFrom isPending sts (i + 1)"
    using Some by (simp add: getNextStudent_def)
  moreover have "(\<forall>j. i + 1 \<le> j \<and> j < length sts \<longrightarrow> \<not> isPending (sts ! j)) \<longleftrightarrow>
                 (\<forall>j. i < j \<and> j < length sts \<longrightarrow> \<not> isPending (sts ! j))"
    by (simp add: Suc_le_eq)
  ultimately show ?thesis using Some by (simp add: scanFrom_None)
qed

lemma getNextStudent_id_only:
  "sid a = sid b \<Longrightarrow> getNextStudent (Some a) sts = getNextStudent (Some b) sts"
  by (simp add: getNextStudent_def)

section \<open>Properties of the upload\<close>

lemma handlePhotosCaptured_events:
  assumes "selectedStudent a = Some st" "photosArray \<noteq> []"
    and "imageFiles (fetchBlob e) photosArray = Inr files"
  shows "snd (snd (handlePhotosCaptured e photosArray a)) =
           UploadScans (sid st) files #
             (case uploadScans e (sid st) files of
                UploadResponse success message \<Rightarrow> if success then [FetchStudents] else []
              | UploadThrows m \<Rightarrow> [])"
  using assms by (cases "uploadScans e (sid st) files") (simp_all add: handlePhotosCaptured_def)

lemma handlePhotosCaptured_p0_events:
  assumes "selectedStudent a = Some st" "photosArray \<noteq> []"
    and "imageFiles (fetchBlob e) photosArray = Inr files"
  shows "snd (snd (handlePhotosCaptured_p0 e photosArray a)) =
           UploadScans (sid st) files #
             (case uploadScans e (sid st) files of
                UploadResponse success message \<Rightarrow> if success then [FetchStudents] else []
              | UploadThrows m \<Rightarrow> [])"
proof (cases "uploadScans e (sid st) files")
  case (UploadResponse success message)
  show ?thesis
  proof (cases "getNextStudent_p0 (Some st) (students a)")
    case None
    with UploadResponse assms show ?thesis by (simp add: handlePhotosCaptured_p0_def)
  next
    case (Some n)
    with UploadResponse assms show ?thesis by (simp add: handlePhotosCaptured_p0_def)
  qed
next
  case (UploadThrows m)
  with assms show ?thesis by (simp add: handlePhotosCaptured_p0_def)
qed


lemma imageFilesFrom_Inr:
  "imageFilesFrom fb k ps = Inr files \<Longrightarrow>
     length files = length ps \<and>
     (\<forall>i < length ps.
        fname (files ! i) = ''page_'' @ string_of_nat (k + i + 1) @ ''.jpg'' \<and>
        ftype (files ! i) = ''image/jpeg'' \<and>
        fb (data (ps ! i)) = Some (blob (files ! i)))"
proof (induction ps arbitrary: k files)
  case Nil
  then show ?case by simp
next
  case (Cons p ps)
  from Cons.prems obtain b fs where b: "fb (data p) = Some b"
    and fs: "imageFilesFrom fb (k + 1) ps = Inr fs"
    and files: "files = \<lparr>fname = ''page_'' @ string_of_nat (k + 1) @ ''.jpg'',
                          ftype = ''image/jpeg'', blob = b\<rparr> # fs"
    by (auto split: option.splits sum.splits)
  from Cons.IH [OF fs] have len: "length fs = length ps"
    and ih: "\<forall>i < length ps.
        fname (fs ! i) = ''page_'' @ string_of_nat (k + 1 + i + 1) @ ''.jpg'' \<and>
        ftype (fs ! i) = ''image/jpeg'' \<and>
        fb (data (ps ! i)) = Some (blob (fs ! i))" by auto
  have "\<forall>i < length (p # ps).
        fname (files ! i) = ''page_'' @ string_of_nat (k + i + 1) @ ''.jpg'' \<and>
        ftype (files ! i) = ''image/jpeg'' \<and>
        fb (data ((p # ps) ! i)) = Some (blob (files ! i))"
  proof (intro allI impI)
    fix i assume i: "i < length (p # ps)"
    show "fname (files ! i) = ''page_'' @ string_of_nat (k + i + 1) @ ''.jpg'' \<and>
        ftype (files ! i) = ''image/jpeg'' \<and>
        fb (data ((p # ps) ! i)) = Some (blob (files ! i))"
    proof (cases i)
      case 0
      then show ?thesis using files b by simp
    next
      case (Suc m)
      with i have "m < length ps" by simp
      with ih Suc files show ?thesis by simp
    qed
  qed
  with len files show ?case by simp
qed

lemma imageFilesFrom_total:
  "(\<forall>p \<in> set ps. fb (data p) \<noteq> None) \<Longrightarrow> \<exists>files. imageFilesFrom fb k ps = Inr files"
proof (induction ps arbitrary: k)
  case Nil
  then show ?case by simp
next
  case (Cons p ps)
  then obtain b where b: "fb (data p) = Some b" by auto
  from Cons obtain fs where "imageFilesFrom fb (k + 1) ps = Inr fs" by fastforce
  with b show ?case by simp
qed

lemma imageFilesFrom_data_only:
  "map data ps = map data qs \<Longrightarrow> imageFilesFrom fb k ps = imageFilesFrom fb k qs"
proof (induction ps arbitrary: qs k)
  case Nil
  then show ?case by simp
next
  case (Cons p ps)
  then obtain q qs' where qs: "qs = q # qs'" "data p = data q" "map data ps = map data qs'"
    by (cases qs) auto
  from Cons.IH [OF qs(3)] have "imageFilesFrom fb (k + 1) ps = imageFilesFrom fb (k + 1) qs'" .
  with qs show ?case by (simp cong: option.case_cong sum.case_cong)
qed

lemma imageFiles_total:
  "(\<forall>p \<in> set ps. fb (data p) \<noteq> None) \<Longrightarrow> \<exists>files. imageFiles fb ps = Inr files"
  using imageFilesFrom_total [of ps fb 0] by (simp add: imageFiles_def)

lemma imageFiles_Inr:
  "imageFiles fb ps = Inr files \<Longrightarrow>
     length files = length ps \<and>
     (\<forall>i < length ps.
        fname (files ! i) = ''page_'' @ string_of_nat (i + 1) @ ''.jpg'' \<and>
        ftype (files ! i) = ''image/jpeg'' \<and>
        fb (data (ps ! i)) = Some (blob (files ! i)))"
  using imageFilesFrom_Inr [of fb 0 ps files] by (simp add: imageFiles_def)

section \<open>Properties of finishing\<close>

lemma handlePhotosCaptured_frame:
  assumes "handlePhotosCaptured e ps a = (r, a1, ev)"
  shows "r \<noteq> Threw \<and> capturedPhotos a1 = capturedPhotos a \<and> currentPhoto a1 = currentPhoto a \<and>
         selectedStudent a1 = selectedStudent a \<and> (r = Returned True \<longrightarrow> ps \<noteq> [])"
proof (cases "selectedStudent a")
  case None
  with assms show ?thesis by (auto simp: handlePhotosCaptured_def)
next
  case (Some st)
  show ?thesis
  proof (cases "ps = []")
    case True
    with Some assms show ?thesis by (auto simp: handlePhotosCaptured_def)
  next
    case ne: False
    show ?thesis
    proof (cases "imageFiles (fetchBlob e) ps")
      case (Inl k)
      with Some ne assms show ?thesis by (auto simp: handlePhotosCaptured_def)
    next
      case (Inr files)
      show ?thesis
      proof (cases "uploadScans e (sid st) files")
        case (UploadThrows m)
        with Some ne Inr assms show ?thesis by (auto simp: handlePhotosCaptured_def)
      next
        case (UploadResponse success message)
        with Some ne Inr assms show ?thesis
          by (cases "getStudents e")
             (auto simp: handlePhotosCaptured_def fetchStudents_def split: if_splits)
      qed
    qed
  qed
qed

lemma handlePhotosCaptured_p0_frame:
  assumes "handlePhotosCaptured_p0 e ps a = (r, a1, ev)"
  shows "r \<noteq> Threw \<and> currentPhoto a1 = currentPhoto a \<and> (r = Returned True \<longrightarrow> ps \<noteq> []) \<and>
         (r \<noteq> Returned True \<longrightarrow> capturedPhotos a1 = capturedPhotos a \<and>
            selectedStudent a1 = selectedStudent a)"
proof (cases "selectedStudent a")
  case None
  with assms show ?thesis by (auto simp: handlePhotosCaptured_p0_def)
next
  case (Some st)
  show ?thesis
  proof (cases "ps = []")
    case True
    with Some assms show ?thesis by (auto simp: handlePhotosCaptured_p0_def)
  next
    case ne: False
    show ?thesis
    proof (cases "imageFiles (fetchBlob e) ps")
      case (Inl k)
      with Some ne assms show ?thesis by (auto simp: handlePhotosCaptured_p0_def)
    next
      case (Inr files)
      show ?thesis
      proof (cases "uploadScans e (sid st) files")
        case (UploadThrows m)
        with Some ne Inr assms show ?thesis by (auto simp: handlePhotosCaptured_p0_def)
      next
        case (UploadResponse success message)
        with Some ne Inr assms show ?thesis
          by (cases "getStudents e"; cases "getNextStudent_p0 (Some st) (students a)")
             (auto simp: handlePhotosCaptured_p0_def fetchStudents_def split: if_splits)
      qed
    qed
  qed
qed



lemma totalPhotos_zero:
  "totalPhotos s = 0 \<longleftrightarrow> capturedPhotos s = [] \<and> \<not> truthy (currentPhoto s)"
  by (simp add: totalPhotos_def)

lemma finalPhotos_empty: "finalPhotos nowId now s = [] \<longleftrightarrow> totalPhotos s = 0"
  by (auto simp: finalPhotos_def totalPhotos_def truthy_def split: option.splits)

lemma handleFinish_result:
  assumes "onFinish (finalPhotos nowId now s) (s\<lparr>uploading := True\<rparr>) = (r, s1, ev)"
    and "totalPhotos s \<noteq> 0"
  shows "handleFinish onFinish nowId now s =
           (case r of
              Returned success \<Rightarrow>
                if success
                then (s1\<lparr>currentPhoto := None, capturedPhotos := [], uploading := False\<rparr>, ev)
                else (s1\<lparr>uploading := False\<rparr>, ev)
            | Threw \<Rightarrow>
                (s1\<lparr>uploading := False\<rparr>, ev @ [Alert ''Error finishing session. Please try again.'']))"
  using assms by (simp add: handleFinish_def split: completion.splits)

lemma handleFinish_b_result:
  assumes "onFinish (finalPhotos nowId now s) (s\<lparr>uploading := True\<rparr>) = (r, s1, ev)"
    and "totalPhotos s \<noteq> 0"
  shows "handleFinish_b onFinish hasNext onNext onCloseProp nowId now s =
           (case r of
              Returned success \<Rightarrow>
                if success
                then (if hasNext
                      then (fst (onNext (s1\<lparr>currentPhoto := None, capturedPhotos := [], uploading := False\<rparr>)),
                            ev @ snd (onNext (s1\<lparr>currentPhoto := None, capturedPhotos := [], uploading := False\<rparr>)))
                      else (onCloseProp (s1\<lparr>currentPhoto := None, capturedPhotos := [], uploading := False\<rparr>), ev))
                else (s1\<lparr>uploading := False\<rparr>, ev)
            | Threw \<Rightarrow> (s1\<lparr>uploading := False\<rparr>, ev))"
  using assms by (simp add: handleFinish_b_def Let_def split: completion.splits)

lemma handleFinish_events:
  assumes "totalPhotos s \<noteq> 0"
  shows "snd (handleFinish (handlePhotosCaptured e) nowId now s) =
           snd (snd (handlePhotosCaptured e (finalPhotos nowId now s) (s\<lparr>uploading := True\<rparr>)))"
proof -
  obtain r s1 ev where
    res: "handlePhotosCaptured e (finalPhotos nowId now s) (s\<lparr>uploading := True\<rparr>) = (r, s1, ev)"
    by (metis prod_cases3)
  from handlePhotosCaptured_frame [OF res] have "r \<noteq> Threw" by simp
  then show ?thesis
    using handleFinish_result [of "handlePhotosCaptured e" nowId now s r s1 ev, OF res assms] res
    by (cases r) auto
qed

lemma handleFinish_p0_events:
  assumes "totalPhotos s \<noteq> 0"
  shows "snd (handleFinish (handlePhotosCaptured_p0 e) nowId now s) =
           snd (snd (handlePhotosCaptured_p0 e (finalPhotos nowId now s) (s\<lparr>uploading := True\<rparr>)))"
proof -
  obtain r s1 ev where
    res: "handlePhotosCaptured_p0 e (finalPhotos nowId now s) (s\<lparr>uploading := True\<rparr>) = (r, s1, ev)"
    by (metis prod_cases3)
  from handlePhotosCaptured_p0_frame [OF res] have "r \<noteq> Threw" by simp
  then show ?thesis
    using handleFinish_result [of "handlePhotosCaptured_p0 e" nowId now s r s1 ev, OF res assms] res
    by (cases r) auto
qed

section \<open>Properties of the camera and the page buffer\<close>

text \<open>A retry stops every track of the stream it holds before it asks for a camera.\<close>

lemma handleRetryCamera_stops_first:
  "\<exists>rest. snd (snd (handleRetryCamera gum s)) = stopTracks (stream s) @ GetUserMedia rearCamera # rest"
  by (simp add: handleRetryCamera_def setupCamera_def split: option.splits)

text \<open>Keeping a frame numbers it by its position when the pages before it are.\<close>

lemma addCurrentPhotoToCaptured_numbering:
  assumes "map pageNumber (capturedPhotos s) = [1..<length (capturedPhotos s) + 1]"
  shows "map pageNumber (capturedPhotos (snd (addCurrentPhotoToCaptured newId now s))) =
           [1..<length (capturedPhotos (snd (addCurrentPhotoToCaptured newId now s))) + 1]"
proof (cases "currentPhoto s")
  case None
  with assms show ?thesis by (simp add: addCurrentPhotoToCaptured_def)
next
  case (Some d)
  show ?thesis
  proof (cases "d = []")
    case True
    with Some assms show ?thesis by (simp add: addCurrentPhotoToCaptured_def)
  next
    case False
    with Some assms show ?thesis by (simp add: addCurrentPhotoToCaptured_def)
  qed
qed

text \<open>
  The order of the camera requests, and what the first component offers when both fail:
  the retry and the file upload buttons, disabled only during an upload, and a valid
  image file still becomes the pending frame.
\<close>

lemma setupCamera_rear_then_front:
  assumes "setupCamera gum held s = (ok, s', ev)"
  shows "\<exists>rest.
           ev = stopTracks held @
                  GetUserMedia \<lparr>facingMode = ''environment'', width_ideal = 1280, height_ideal = 720\<rparr> # rest \<and>
           (gum rearCamera \<noteq> None \<longrightarrow>
              rest = [] \<and> ok \<and> stream s' = gum rearCamera \<and> cameraReady s' \<and> cameraError s' = None) \<and>
           (gum rearCamera = None \<longrightarrow>
              rest = [GetUserMedia \<lparr>facingMode = ''user'', width_ideal = 1280, height_ideal = 720\<rparr>] \<and>
              (gum frontCamera \<noteq> None \<longrightarrow>
                 ok \<and> stream s' = gum frontCamera \<and> cameraReady s' \<and> cameraError s' = None) \<and>
              (gum frontCamera = None \<longrightarrow>
                 \<not> ok \<and> \<not> cameraReady s' \<and> truthy (cameraError s') \<and>
                 cameraErrorActions s' = [(RetryCamera, uploading s), (UseFileUploadInstead, uploading s)] \<and>
                 (\<forall>file d. take 6 (file_type file) = ''image/'' \<and> file_size file \<le> 10 * 1024 * 1024 \<and>
                            file_dataURL file = Some d \<longrightarrow>
                    handleFileSelect (Some file) s' = (s'\<lparr>currentPhoto := Some d\<rparr>, []))))"
proof (cases "gum rearCamera")
  case (Some ms)
  with assms show ?thesis by (auto simp: setupCamera_def rearCamera_def)
next
  case rear: None
  show ?thesis
  proof (cases "gum frontCamera")
    case (Some fs)
    with rear assms show ?thesis by (auto simp: setupCamera_def rearCamera_def frontCamera_def)
  next
    case None
    with rear assms have r: "ok = False"
      "s' = s\<lparr>cameraError := Some ''Camera access failed. Please check permissions and ensure camera is available.'',
                  cameraReady := False\<rparr>"
      "ev = stopTracks held @ [GetUserMedia rearCamera, GetUserMedia frontCamera]"
      by (auto simp: setupCamera_def)
    have files: "\<forall>file d. take 6 (file_type file) = ''image/'' \<and> file_size file \<le> 10 * 1024 * 1024 \<and>
                            file_dataURL file = Some d \<longrightarrow>
                    handleFileSelect (Some file) s' = (s'\<lparr>currentPhoto := Some d\<rparr>, [])"
      by (simp add: handleFileSelect_def)
    have acts: "cameraErrorActions s' = [(RetryCamera, uploading s), (UseFileUploadInstead, uploading s)]"
      using r(2) by (simp add: cameraErrorActions_def truthy_def)
    have err: "truthy (cameraError s')" "\<not> cameraReady s'" using r(2) by (simp_all add: truthy_def)
    show ?thesis
      by (rule exI [of _ "[GetUserMedia frontCamera]"])
         (use rear None r(1,3) files acts err in \<open>simp add: rearCamera_def frontCamera_def\<close>)
  qed
qed

text \<open>The second component makes the same calls and returns the same answer.\<close>

lemma setupCamera_b_same_calls:
  "fst (setupCamera_b gum held s) = fst (setupCamera gum held s) \<and>
   snd (snd (setupCamera_b gum held s)) = snd (snd (setupCamera gum held s)) \<and>
   stream (fst (snd (setupCamera_b gum held s))) = stream (fst (snd (setupCamera gum held s))) \<and>
   cameraReady (fst (snd (setupCamera_b gum held s))) = cameraReady (fst (snd (setupCamera gum held s))) \<and>
   truthy (cameraError (fst (snd (setupCamera_b gum held s)))) =
     truthy (cameraError (fst (snd (setupCamera gum held s))))"
  by (simp add: setupCamera_b_def setupCamera_def truthy_def split: option.splits)

section \<open>Claims\<close>

text \<open>
  C1. \<^verbatim>\<open>getNextStudent\<close> is to return the first later student whose status is Pending
  and who is not scanned, and never a student whose status is Absent or Missing. The
  copy in \<^verbatim>\<open>unnamed/part_000\<close> tests \<^verbatim>\<open>status !== 'Absent'\<close> instead of
  \<^verbatim>\<open>status === 'Pending'\<close>: on the roster A (pending), B (missing), C (pending) with A
  current it returns B, where the one in \<^verbatim>\<open>src/App.jsx\<close> returns C.
\<close>

theorem getNextStudent_p0_returns_missing:
  "getNextStudent_p0
     (Some \<lparr>sid = ''a'', rollNumber = ''1'', name = ''A'', status = ''Pending'', isScanned = False\<rparr>)
     [\<lparr>sid = ''a'', rollNumber = ''1'', name = ''A'', status = ''Pending'', isScanned = False\<rparr>,
      \<lparr>sid = ''b'', rollNumber = ''2'', name = ''B'', status = ''Missing'', isScanned = False\<rparr>,
      \<lparr>sid = ''c'', rollNumber = ''3'', name = ''C'', status = ''Pending'', isScanned = False\<rparr>]
   = Some \<lparr>sid = ''b'', rollNumber = ''2'', name = ''B'', status = ''Missing'', isScanned = False\<rparr>
   \<and>
   getNextStudent
     (Some \<lparr>sid = ''a'', rollNumber = ''1'', name = ''A'', status = ''Pending'', isScanned = False\<rparr>)
     [\<lparr>sid = ''a'', rollNumber = ''1'', name = ''A'', status = ''Pending'', isScanned = False\<rparr>,
      \<lparr>sid = ''b'', rollNumber = ''2'', name = ''B'', status = ''Missing'', isScanned = False\<rparr>,
      \<lparr>sid = ''c'', rollNumber = ''3'', name = ''C'', status = ''Pending'', isScanned = False\<rparr>]
   = Some \<lparr>sid = ''c'', rollNumber = ''3'', name = ''C'', status = ''Pending'', isScanned = False\<rparr>"
  by (simp add: getNextStudent_p0_def getNextStudent_def findIndex_def scanFrom.simps
      isUnscanned_def isPending_def)

text \<open>
  C2. After any appends and removals the page numbers of the pages left in the buffer
  are to be their positions, without gaps or duplicates. \<^verbatim>\<open>addCurrentPhotoToCaptured\<close>
  stores \<open>pageNumber = length + 1\<close> and \<^verbatim>\<open>handleRemovePhoto\<close> only filters, so the stored
  numbers are not renumbered: keep two pages, remove the first, keep a third. The buffer
  then holds two pages, both numbered 2 (the thumbnails print this stored number).
\<close>

theorem remove_then_append_duplicates_page_number:
  "(let s1 = snd (addCurrentPhotoToCaptured 1 ''t1''
               (fst (handleFileSelect
                  (Some \<lparr>file_type = ''image/jpeg'', file_size = 1000, file_dataURL = Some ''a''\<rparr>)
                  initialState)));
        s2 = snd (addCurrentPhotoToCaptured 2 ''t2''
               (fst (handleFileSelect
                  (Some \<lparr>file_type = ''image/jpeg'', file_size = 1000, file_dataURL = Some ''b''\<rparr>)
                  s1)));
        s3 = handleRemovePhoto 1 s2;
        s4 = snd (addCurrentPhotoToCaptured 3 ''t3''
               (fst (handleFileSelect
                  (Some \<lparr>file_type = ''image/jpeg'', file_size = 1000, file_dataURL = Some ''c''\<rparr>)
                  s3)))
    in map pageNumber (capturedPhotos s2) = [1, 2] \<and>
       map data (capturedPhotos s3) = [''b''] \<and>
       map pageNumber (capturedPhotos s3) = [2] \<and>
       map data (capturedPhotos s4) = [''b'', ''c''] \<and>
       map pageNumber (capturedPhotos s4) = [2, 2])"
  by (simp add: Let_def addCurrentPhotoToCaptured_def handleFileSelect_def handleRemovePhoto_def
      initialState_def studentDataRoll_def)




text \<open>
  C4. Finishing with an empty page buffer and no pending frame is rejected at once:
  \<^verbatim>\<open>handleFinish\<close> (of either component) shows the message asking for at least one
  photo and returns the state as it was, without calling \<^verbatim>\<open>onFinish\<close> at all, so
  nothing is uploaded. The batch would be empty, and \<^verbatim>\<open>handlePhotosCaptured\<close> (of
  either copy of \<^verbatim>\<open>App\<close>) given an empty batch answers \<^verbatim>\<open>false\<close> without a call to
  \<^verbatim>\<open>uploadScans\<close> and without a change of state.
\<close>

theorem finish_with_nothing_is_rejected:
  assumes "capturedPhotos s = []" and "\<not> truthy (currentPhoto s)"
  shows "handleFinish onFinish nowId now s =
           (s, [Alert ''Please capture at least one photo before finishing.'']) \<and>
         handleFinish_b onFinish hasNext onNext onCloseProp nowId now s =
           (s, [Alert ''Please capture at least one photo before finishing.'']) \<and>
         finalPhotos nowId now s = [] \<and>
         handlePhotosCaptured e [] s = (Returned False, s, []) \<and>
         handlePhotosCaptured_p0 e [] s = (Returned False, s, [])"
proof -
  have z: "totalPhotos s = 0" using assms by (simp add: totalPhotos_zero)
  have "handleFinish onFinish nowId now s =
           (s, [Alert ''Please capture at least one photo before finishing.''])"
    using z by (simp add: handleFinish_def)
  moreover have "handleFinish_b onFinish hasNext onNext onCloseProp nowId now s =
           (s, [Alert ''Please capture at least one photo before finishing.''])"
    using z by (simp add: handleFinish_b_def)
  moreover have "finalPhotos nowId now s = []" using z by (simp add: finalPhotos_empty)
  moreover have "handlePhotosCaptured e [] s = (Returned False, s, [])"
    by (simp add: handlePhotosCaptured_def split: option.splits)
  moreover have "handlePhotosCaptured_p0 e [] s = (Returned False, s, [])"
    by (simp add: handlePhotosCaptured_p0_def split: option.splits)
  ultimately show ?thesis by simp
qed

theorem finish_with_nothing_is_rejected_witness:
  "handleFinish
     (handlePhotosCaptured
        \<lparr>getUserMedia = (\<lambda>c. None), hasImageCapture = False, takePhoto = None,
         canvasCapture = None, fetchBlob = (\<lambda>d. Some d),
         uploadScans = (\<lambda>i fs. UploadResponse True None), getStudents = FetchNotSuccess\<rparr>)
     1 ''t''
     (handleScanRequest
        \<lparr>sid = ''a'', rollNumber = ''1'', name = ''A'', status = ''Pending'', isScanned = False\<rparr>
        initialState)
   = (handleScanRequest
        \<lparr>sid = ''a'', rollNumber = ''1'', name = ''A'', status = ''Pending'', isScanned = False\<rparr>
        initialState,
      [Alert ''Please capture at least one photo before finishing.''])"
proof -
  let ?s = "handleScanRequest
        \<lparr>sid = ''a'', rollNumber = ''1'', name = ''A'', status = ''Pending'', isScanned = False\<rparr>
        initialState"
  have h1: "capturedPhotos ?s = []" by (simp add: handleScanRequest_def)
  have h2: "\<not> truthy (currentPhoto ?s)"
    by (simp add: handleScanRequest_def initialState_def truthy_def)
  from finish_with_nothing_is_rejected [OF h1 h2] show ?thesis by blast
qed

text \<open>
  C5. For every call of \<^verbatim>\<open>handleFinish\<close> with something to submit, the batch is the
  page buffer in its order, followed by the pending frame as the last page, numbered
  \<open>length + 1\<close>, when one is held: it is not dropped. With no pending frame the batch
  is the page buffer itself. The upload request carries one file per page of that batch,
  in that order, named \<^verbatim>\<open>page_1.jpg\<close> onwards, the pending frame last. If the buffer's
  pages are numbered by position (as after appends only), a batch with a pending frame is
  numbered 1 to \<open>length + 1\<close>. The witness runs both cases: two kept frames and a
  pending third give three images in capture order with page numbers 1, 2, 3; the two
  kept frames alone give those two.
\<close>

theorem finish_submits_buffer_then_pending:
  assumes st: "selectedStudent s = Some st"
    and ne: "capturedPhotos s \<noteq> [] \<or> truthy (currentPhoto s)"
    and conv: "\<forall>p \<in> set (capturedPhotos s). fetchBlob e (data p) \<noteq> None"
    and convp: "\<forall>d. currentPhoto s = Some d \<and> d \<noteq> [] \<longrightarrow> fetchBlob e d \<noteq> None"
  shows "(\<forall>d. currentPhoto s = Some d \<and> d \<noteq> [] \<longrightarrow>
            finalPhotos nowId now s =
              capturedPhotos s @
                [\<lparr>photo_id = nowId, data = d, pageNumber = length (capturedPhotos s) + 1,
                  timestamp = now, studentRoll = rollNumber st\<rparr>] \<and>
            (map pageNumber (capturedPhotos s) = [1..<length (capturedPhotos s) + 1] \<longrightarrow>
               map pageNumber (finalPhotos nowId now s) = [1..<length (capturedPhotos s) + 2])) \<and>
         (\<not> truthy (currentPhoto s) \<longrightarrow> finalPhotos nowId now s = capturedPhotos s) \<and>
         (\<exists>files rest rest0.
            snd (handleFinish (handlePhotosCaptured e) nowId now s) = UploadScans (sid st) files # rest \<and>
            snd (handleFinish (handlePhotosCaptured_p0 e) nowId now s) = UploadScans (sid st) files # rest0 \<and>
            length files = length (finalPhotos nowId now s) \<and>
            (\<forall>i < length (finalPhotos nowId now s).
               fetchBlob e (data (finalPhotos nowId now s ! i)) = Some (blob (files ! i)) \<and>
               fname (files ! i) = ''page_'' @ string_of_nat (i + 1) @ ''.jpg'') \<and>
            (\<forall>d. currentPhoto s = Some d \<and> d \<noteq> [] \<longrightarrow>
               length files = length (capturedPhotos s) + 1 \<and>
               (\<forall>i < length (capturedPhotos s).
                  fetchBlob e (data (capturedPhotos s ! i)) = Some (blob (files ! i))) \<and>
               fetchBlob e d = Some (blob (files ! length (capturedPhotos s)))) \<and>
            (\<not> truthy (currentPhoto s) \<longrightarrow>
               length files = length (capturedPhotos s) \<and>
               (\<forall>i < length (capturedPhotos s).
                  fetchBlob e (data (capturedPhotos s ! i)) = Some (blob (files ! i)))))"
proof -
  let ?n = "length (capturedPhotos s)"
  let ?batch = "finalPhotos nowId now s"
  let ?up = "s\<lparr>uploading := True\<rparr>"
  have withp: "?batch = capturedPhotos s @
                [\<lparr>photo_id = nowId, data = d, pageNumber = ?n + 1,
                  timestamp = now, studentRoll = rollNumber st\<rparr>]"
    if "currentPhoto s = Some d" "d \<noteq> []" for d
    using that st by (simp add: finalPhotos_def studentDataRoll_def)
  have nop: "?batch = capturedPhotos s" if "\<not> truthy (currentPhoto s)"
    using that by (auto simp: finalPhotos_def truthy_def split: option.splits)
  have tot: "totalPhotos s \<noteq> 0" using ne by (auto simp: totalPhotos_def)
  then have nonempty: "?batch \<noteq> []" by (simp add: finalPhotos_empty)
  have sel: "selectedStudent ?up = Some st" using st by simp
  have all: "\<forall>p \<in> set ?batch. fetchBlob e (data p) \<noteq> None"
  proof (cases "truthy (currentPhoto s)")
    case False
    with nop conv show ?thesis by simp
  next
    case True
    then obtain d where d: "currentPhoto s = Some d" "d \<noteq> []"
      by (auto simp: truthy_def split: option.splits)
    with convp have "fetchBlob e d \<noteq> None" by blast
    with conv withp [OF d] show ?thesis by simp
  qed
  from imageFiles_total [OF all] obtain files
    where f: "imageFiles (fetchBlob e) ?batch = Inr files" by blast
  from imageFiles_Inr [OF f] have flen: "length files = length ?batch"
    and nth: "\<forall>i < length ?batch.
              fname (files ! i) = ''page_'' @ string_of_nat (i + 1) @ ''.jpg'' \<and>
              ftype (files ! i) = ''image/jpeg'' \<and>
              fetchBlob e (data (?batch ! i)) = Some (blob (files ! i))"
    by blast+
  obtain rest where
    ev: "snd (snd (handlePhotosCaptured e ?batch ?up)) = UploadScans (sid st) files # rest"
    using handlePhotosCaptured_events [OF sel nonempty f] by blast
  obtain rest0 where
    ev0: "snd (snd (handlePhotosCaptured_p0 e ?batch ?up)) = UploadScans (sid st) files # rest0"
    using handlePhotosCaptured_p0_events [OF sel nonempty f] by blast
  have e1: "snd (handleFinish (handlePhotosCaptured e) nowId now s) = UploadScans (sid st) files # rest"
    using handleFinish_events [OF tot] ev by simp
  have e0: "snd (handleFinish (handlePhotosCaptured_p0 e) nowId now s) = UploadScans (sid st) files # rest0"
    using handleFinish_p0_events [OF tot] ev0 by simp
  have each: "\<forall>i < length ?batch.
               fetchBlob e (data (?batch ! i)) = Some (blob (files ! i)) \<and>
               fname (files ! i) = ''page_'' @ string_of_nat (i + 1) @ ''.jpg''"
    using nth by blast
  have pending: "\<forall>d. currentPhoto s = Some d \<and> d \<noteq> [] \<longrightarrow>
               length files = ?n + 1 \<and>
               (\<forall>i < ?n. fetchBlob e (data (capturedPhotos s ! i)) = Some (blob (files ! i))) \<and>
               fetchBlob e d = Some (blob (files ! ?n))"
  proof (intro allI impI)
    fix d assume "currentPhoto s = Some d \<and> d \<noteq> []"
    then have fin: "?batch = capturedPhotos s @
                [\<lparr>photo_id = nowId, data = d, pageNumber = ?n + 1,
                  timestamp = now, studentRoll = rollNumber st\<rparr>]"
      using withp by blast
    have len: "length files = ?n + 1" using flen fin by simp
    have blobs: "\<forall>i < ?n. fetchBlob e (data (capturedPhotos s ! i)) = Some (blob (files ! i))"
    proof (intro allI impI)
      fix i assume i: "i < ?n"
      then have "i < length ?batch" using fin by simp
      with nth have "fetchBlob e (data (?batch ! i)) = Some (blob (files ! i))" by blast
      moreover have "?batch ! i = capturedPhotos s ! i" using fin i by (simp add: nth_append)
      ultimately show "fetchBlob e (data (capturedPhotos s ! i)) = Some (blob (files ! i))" by simp
    qed
    have lastb: "fetchBlob e d = Some (blob (files ! ?n))"
    proof -
      have "?n < length ?batch" using fin by simp
      with nth have "fetchBlob e (data (?batch ! ?n)) = Some (blob (files ! ?n))" by blast
      moreover have "data (?batch ! ?n) = d" using fin by (simp add: nth_append)
      ultimately show ?thesis by simp
    qed
    from len blobs lastb
    show "length files = ?n + 1 \<and>
               (\<forall>i < ?n. fetchBlob e (data (capturedPhotos s ! i)) = Some (blob (files ! i))) \<and>
               fetchBlob e d = Some (blob (files ! ?n))" by (intro conjI)
  qed
  have nopending: "\<not> truthy (currentPhoto s) \<longrightarrow>
               length files = ?n \<and>
               (\<forall>i < ?n. fetchBlob e (data (capturedPhotos s ! i)) = Some (blob (files ! i)))"
  proof
    assume "\<not> truthy (currentPhoto s)"
    then have fin: "?batch = capturedPhotos s" by (rule nop)
    show "length files = ?n \<and>
               (\<forall>i < ?n. fetchBlob e (data (capturedPhotos s ! i)) = Some (blob (files ! i)))"
      using flen nth unfolding fin by blast
  qed
  have sub: "\<exists>files rest rest0.
            snd (handleFinish (handlePhotosCaptured e) nowId now s) = UploadScans (sid st) files # rest \<and>
            snd (handleFinish (handlePhotosCaptured_p0 e) nowId now s) = UploadScans (sid st) files # rest0 \<and>
            length files = length ?batch \<and>
            (\<forall>i < length ?batch.
               fetchBlob e (data (?batch ! i)) = Some (blob (files ! i)) \<and>
               fname (files ! i) = ''page_'' @ string_of_nat (i + 1) @ ''.jpg'') \<and>
            (\<forall>d. currentPhoto s = Some d \<and> d \<noteq> [] \<longrightarrow>
               length files = ?n + 1 \<and>
               (\<forall>i < ?n. fetchBlob e (data (capturedPhotos s ! i)) = Some (blob (files ! i))) \<and>
               fetchBlob e d = Some (blob (files ! ?n))) \<and>
            (\<not> truthy (currentPhoto s) \<longrightarrow>
               length files = ?n \<and>
               (\<forall>i < ?n. fetchBlob e (data (capturedPhotos s ! i)) = Some (blob (files ! i))))"
    by (rule exI [of _ files], rule exI [of _ rest], rule exI [of _ rest0])
       (intro conjI; fact)
  have first: "\<forall>d. currentPhoto s = Some d \<and> d \<noteq> [] \<longrightarrow>
            ?batch =
              capturedPhotos s @
                [\<lparr>photo_id = nowId, data = d, pageNumber = ?n + 1,
                  timestamp = now, studentRoll = rollNumber st\<rparr>] \<and>
            (map pageNumber (capturedPhotos s) = [1..<?n + 1] \<longrightarrow>
               map pageNumber ?batch = [1..<?n + 2])"
  proof (intro allI impI)
    fix d assume "currentPhoto s = Some d \<and> d \<noteq> []"
    then have fin: "?batch = capturedPhotos s @
                [\<lparr>photo_id = nowId, data = d, pageNumber = ?n + 1,
                  timestamp = now, studentRoll = rollNumber st\<rparr>]"
      using withp by blast
    have "map pageNumber (capturedPhotos s) = [1..<?n + 1] \<longrightarrow>
               map pageNumber ?batch = [1..<?n + 2]"
      unfolding fin by simp
    with fin show "?batch =
              capturedPhotos s @
                [\<lparr>photo_id = nowId, data = d, pageNumber = ?n + 1,
                  timestamp = now, studentRoll = rollNumber st\<rparr>] \<and>
            (map pageNumber (capturedPhotos s) = [1..<?n + 1] \<longrightarrow>
               map pageNumber ?batch = [1..<?n + 2])" by (intro conjI)
  qed
  have second: "\<not> truthy (currentPhoto s) \<longrightarrow> ?batch = capturedPhotos s"
    using nop by blast
  from first second sub show ?thesis by (intro conjI)
qed


theorem finish_submits_buffer_then_pending_witness:
  "(let st = \<lparr>sid = ''a'', rollNumber = ''1'', name = ''A'', status = ''Pending'', isScanned = False\<rparr>;
        e = \<lparr>getUserMedia = (\<lambda>c. None), hasImageCapture = False, takePhoto = None,
              canvasCapture = None, fetchBlob = (\<lambda>d. Some d),
              uploadScans = (\<lambda>i fs. UploadResponse True None), getStudents = FetchNotSuccess\<rparr>;
        s0 = handleScanRequest st initialState;
        s1 = handleKeepAndAddMore 1 ''t1''
               (fst (handleFileSelect
                  (Some \<lparr>file_type = ''image/jpeg'', file_size = 1000, file_dataURL = Some ''one''\<rparr>) s0));
        s2 = handleKeepAndAddMore 2 ''t2''
               (fst (handleFileSelect
                  (Some \<lparr>file_type = ''image/jpeg'', file_size = 1000, file_dataURL = Some ''two''\<rparr>) s1));
        s3 = fst (handleFileSelect
                  (Some \<lparr>file_type = ''image/jpeg'', file_size = 1000, file_dataURL = Some ''three''\<rparr>) s2)
    in map data (capturedPhotos s3) = [''one'', ''two''] \<and> currentPhoto s3 = Some ''three'' \<and>
       map data (finalPhotos 3 ''t3'' s3) = [''one'', ''two'', ''three''] \<and>
       map pageNumber (finalPhotos 3 ''t3'' s3) = [1, 2, 3] \<and>
       (\<exists>files rest.
          snd (handleFinish (handlePhotosCaptured e) 3 ''t3'' s3) = UploadScans ''a'' files # rest \<and>
          length files = 3 \<and>
          map blob files = [''one'', ''two'', ''three''] \<and>
          map fname files = [''page_1.jpg'', ''page_2.jpg'', ''page_3.jpg'']) \<and>
       currentPhoto s2 = None \<and>
       map data (finalPhotos 3 ''t3'' s2) = [''one'', ''two''] \<and>
       map pageNumber (finalPhotos 3 ''t3'' s2) = [1, 2] \<and>
       (\<exists>files rest.
          snd (handleFinish (handlePhotosCaptured e) 3 ''t3'' s2) = UploadScans ''a'' files # rest \<and>
          length files = 2 \<and>
          map blob files = [''one'', ''two''] \<and>
          map fname files = [''page_1.jpg'', ''page_2.jpg'']))"
proof -
  let ?st = "\<lparr>sid = ''a'', rollNumber = ''1'', name = ''A'', status = ''Pending'', isScanned = False\<rparr>"
  let ?e = "\<lparr>getUserMedia = (\<lambda>c. None), hasImageCapture = False, takePhoto = None,
              canvasCapture = None, fetchBlob = (\<lambda>d. Some d),
              uploadScans = (\<lambda>i fs. UploadResponse True None), getStudents = FetchNotSuccess\<rparr>"
  let ?s0 = "handleScanRequest ?st initialState"
  let ?s1 = "handleKeepAndAddMore 1 ''t1''
               (fst (handleFileSelect
                  (Some \<lparr>file_type = ''image/jpeg'', file_size = 1000, file_dataURL = Some ''one''\<rparr>) ?s0))"
  let ?s2 = "handleKeepAndAddMore 2 ''t2''
               (fst (handleFileSelect
                  (Some \<lparr>file_type = ''image/jpeg'', file_size = 1000, file_dataURL = Some ''two''\<rparr>) ?s1))"
  let ?s3 = "fst (handleFileSelect
                  (Some \<lparr>file_type = ''image/jpeg'', file_size = 1000, file_dataURL = Some ''three''\<rparr>) ?s2)"
  let ?buf = "[\<lparr>photo_id = 1, data = ''one'', pageNumber = 1, timestamp = ''t1'', studentRoll = ''1''\<rparr>,
       \<lparr>photo_id = 2, data = ''two'', pageNumber = 2, timestamp = ''t2'', studentRoll = ''1''\<rparr>]"
  have buf2: "capturedPhotos ?s2 = ?buf"
    by (simp add: handleKeepAndAddMore_def addCurrentPhotoToCaptured_def handleFileSelect_def
        handleScanRequest_def initialState_def studentDataRoll_def truthy_def)
  have sel2: "selectedStudent ?s2 = Some ?st"
    by (simp add: handleKeepAndAddMore_def addCurrentPhotoToCaptured_def handleFileSelect_def
        handleScanRequest_def initialState_def studentDataRoll_def truthy_def)
  have cur2: "currentPhoto ?s2 = None"
    by (simp add: handleKeepAndAddMore_def addCurrentPhotoToCaptured_def handleFileSelect_def
        handleScanRequest_def initialState_def studentDataRoll_def truthy_def)
  have buf: "capturedPhotos ?s3 = ?buf" using buf2 by (simp add: handleFileSelect_def)
  have h1: "selectedStudent ?s3 = Some ?st" using sel2 by (simp add: handleFileSelect_def)
  have h2: "currentPhoto ?s3 = Some ''three''" by (simp add: handleFileSelect_def)
  have ne3: "capturedPhotos ?s3 \<noteq> [] \<or> truthy (currentPhoto ?s3)" using buf by simp
  have h4: "\<forall>p \<in> set (capturedPhotos ?s3). fetchBlob ?e (data p) \<noteq> None" by simp
  have h5: "\<forall>d. currentPhoto ?s3 = Some d \<and> d \<noteq> [] \<longrightarrow> fetchBlob ?e d \<noteq> None" by simp
  note T3 = finish_submits_buffer_then_pending [OF h1 ne3 h4 h5, of 3 "''t3''"]
  have fin: "finalPhotos 3 ''t3'' ?s3 =
           ?buf @ [\<lparr>photo_id = 3, data = ''three'', pageNumber = 3,
               timestamp = ''t3'', studentRoll = ''1''\<rparr>]"
    using T3 [THEN conjunct1, rule_format, of "''three''"] h2 buf by simp
  from T3 [THEN conjunct2, THEN conjunct2] obtain files rest rest0 where
    ev: "snd (handleFinish (handlePhotosCaptured ?e) 3 ''t3'' ?s3) = UploadScans (sid ?st) files # rest"
    and len: "length files = length (finalPhotos 3 ''t3'' ?s3)"
    and each: "\<forall>i < length (finalPhotos 3 ''t3'' ?s3).
               fetchBlob ?e (data (finalPhotos 3 ''t3'' ?s3 ! i)) = Some (blob (files ! i)) \<and>
               fname (files ! i) = ''page_'' @ string_of_nat (i + 1) @ ''.jpg''"
    by blast
  from len fin obtain f0 f1 f2 where fs: "files = [f0, f1, f2]"
    by (cases files; cases "tl files"; cases "tl (tl files)") auto
  have p0: "blob f0 = ''one''" "fname f0 = ''page_1.jpg''"
    using each [rule_format, of 0] fs by (simp_all add: fin string_of_nat.simps)
  have p1: "blob f1 = ''two''" "fname f1 = ''page_2.jpg''"
    using each [rule_format, of 1] fs by (simp_all add: fin string_of_nat.simps)
  have p2: "blob f2 = ''three''" "fname f2 = ''page_3.jpg''"
    using each [rule_format, of 2] fs by (simp_all add: fin string_of_nat.simps)
  have files3: "\<exists>files rest.
          snd (handleFinish (handlePhotosCaptured ?e) 3 ''t3'' ?s3) = UploadScans ''a'' files # rest \<and>
          length files = 3 \<and>
          map blob files = [''one'', ''two'', ''three''] \<and>
          map fname files = [''page_1.jpg'', ''page_2.jpg'', ''page_3.jpg'']"
    by (rule exI [of _ files], rule exI [of _ rest]) (use ev fs p0 p1 p2 in simp)
  have batch3: "map data (finalPhotos 3 ''t3'' ?s3) = [''one'', ''two'', ''three'']"
    "map pageNumber (finalPhotos 3 ''t3'' ?s3) = [1, 2, 3]"
    by (simp_all add: fin)
  have ne2: "capturedPhotos ?s2 \<noteq> [] \<or> truthy (currentPhoto ?s2)" using buf2 by simp
  have g4: "\<forall>p \<in> set (capturedPhotos ?s2). fetchBlob ?e (data p) \<noteq> None" by simp
  have g5: "\<forall>d. currentPhoto ?s2 = Some d \<and> d \<noteq> [] \<longrightarrow> fetchBlob ?e d \<noteq> None" by simp
  note T2 = finish_submits_buffer_then_pending [OF sel2 ne2 g4 g5, of 3 "''t3''"]
  have nt: "\<not> truthy (currentPhoto ?s2)" using cur2 by (simp add: truthy_def)
  have fin2: "finalPhotos 3 ''t3'' ?s2 = ?buf"
    using T2 [THEN conjunct2, THEN conjunct1] nt buf2 by simp
  from T2 [THEN conjunct2, THEN conjunct2] obtain gs rest2 rest3 where
    ev2: "snd (handleFinish (handlePhotosCaptured ?e) 3 ''t3'' ?s2) = UploadScans (sid ?st) gs # rest2"
    and len2: "length gs = length (finalPhotos 3 ''t3'' ?s2)"
    and each2: "\<forall>i < length (finalPhotos 3 ''t3'' ?s2).
               fetchBlob ?e (data (finalPhotos 3 ''t3'' ?s2 ! i)) = Some (blob (gs ! i)) \<and>
               fname (gs ! i) = ''page_'' @ string_of_nat (i + 1) @ ''.jpg''"
    by blast
  from len2 fin2 obtain g0 g1 where gs: "gs = [g0, g1]"
    by (cases gs; cases "tl gs") auto
  have q0: "blob g0 = ''one''" "fname g0 = ''page_1.jpg''"
    using each2 [rule_format, of 0] gs by (simp_all add: fin2 string_of_nat.simps)
  have q1: "blob g1 = ''two''" "fname g1 = ''page_2.jpg''"
    using each2 [rule_format, of 1] gs by (simp_all add: fin2 string_of_nat.simps)
  have files2: "\<exists>files rest.
          snd (handleFinish (handlePhotosCaptured ?e) 3 ''t3'' ?s2) = UploadScans ''a'' files # rest \<and>
          length files = 2 \<and>
          map blob files = [''one'', ''two''] \<and>
          map fname files = [''page_1.jpg'', ''page_2.jpg'']"
    by (rule exI [of _ gs], rule exI [of _ rest2]) (use ev2 gs q0 q1 in simp)
  have batch2: "map data (finalPhotos 3 ''t3'' ?s2) = [''one'', ''two'']"
    "map pageNumber (finalPhotos 3 ''t3'' ?s2) = [1, 2]"
    by (simp_all add: fin2)
  have "map data (capturedPhotos ?s3) = [''one'', ''two'']" using buf by simp
  with h2 batch3 files3 cur2 batch2 files2 show ?thesis by (simp only: Let_def)
qed

text \<open>
  C6. The camera is asked for rear first and front second in both components, and when
  both fail the session is in the camera-error state. File import is then to remain
  available. The first component offers it (two buttons open the file picker). The
  second component has no file input: with both cameras failing at the start of a
  session, the buttons it renders are the disabled capture button, the close button and
  the retry button, and none of them opens a file picker.
\<close>

theorem second_component_has_no_file_import:
  "(let s = handleScanRequest
              \<lparr>sid = ''a'', rollNumber = ''1'', name = ''A'', status = ''Pending'', isScanned = False\<rparr>
              initialState;
        (ok, s', ev) = mount_b (\<lambda>c. None) s;
        (ok1, s1, ev1) = mount (\<lambda>c. None) s
    in \<not> ok \<and>
       ev = [GetUserMedia \<lparr>facingMode = ''environment'', width_ideal = 1280, height_ideal = 720\<rparr>,
             GetUserMedia \<lparr>facingMode = ''user'', width_ideal = 1280, height_ideal = 720\<rparr>] \<and>
       truthy (cameraError s') \<and> \<not> cameraReady s' \<and>
       headerActions_b s' @ cameraErrorActions_b s' =
         [(TakePhoto, True), (Close, False), (RetryCamera, False)] \<and>
       filter (\<lambda>b. opensFilePicker (fst b)) (headerActions_b s' @ cameraErrorActions_b s') = [] \<and>
       \<not> ok1 \<and> ev1 = ev \<and>
       filter (\<lambda>b. opensFilePicker (fst b)) (headerActions s1 @ cameraErrorActions s1) =
         [(ChooseFromFiles, False), (UseFileUploadInstead, False)])"
  by (simp add: Let_def mount_b_def mount_def setupCamera_b_def setupCamera_def firstRender_def
      handleScanRequest_def initialState_def stopTracks_def rearCamera_def frontCamera_def
      truthy_def headerActions_b_def cameraErrorActions_b_def headerActions_def
      cameraErrorActions_def opensFilePicker_def captureDisabled_def)

text \<open>
  C7. Every way out of a session is to stop the tracks of the held stream. The cleanup of
  the camera effect reads the \<^verbatim>\<open>stream\<close> of the first render, which is \<^verbatim>\<open>null\<close>, so it
  stops nothing: a session that acquired the rear camera (track 1) and is then closed
  makes no \<^verbatim>\<open>track.stop()\<close> call and leaves track 1 running. Moving to the next
  student tears nothing down either, and the track stays live.
\<close>

theorem close_leaves_camera_running:
  "(let gum = (\<lambda>c. if facingMode c = ''environment'' then Some \<lparr>tracks = [1]\<rparr> else None);
        a = handleScanRequest
              \<lparr>sid = ''a'', rollNumber = ''1'', name = ''A'', status = ''Pending'', isScanned = False\<rparr>
              (initialState\<lparr>students :=
                 [\<lparr>sid = ''a'', rollNumber = ''1'', name = ''A'', status = ''Pending'', isScanned = False\<rparr>,
                  \<lparr>sid = ''b'', rollNumber = ''2'', name = ''B'', status = ''Pending'', isScanned = False\<rparr>]\<rparr>);
        (ok, s1, ev1) = mount gum a;
        (s2, ev2) = closeSession s1;
        (s3, ev3) = advanceSession s1
    in ok \<and> stream s1 = Some \<lparr>tracks = [1]\<rparr> \<and> cameraReady s1 \<and>
       ev1 = [GetUserMedia rearCamera] \<and>
       \<not> showPhotoCapture s2 \<and> ev2 = [] \<and> liveTracks gum (ev1 @ ev2) [] = [1] \<and>
       ev3 = [] \<and> liveTracks gum (ev1 @ ev3) [] = [1])"
  by (simp add: Let_def mount_def setupCamera_def firstRender_def closeSession_def unmount_def
      stopTracks_def onClose_def advanceSession_def App_handleNextStudent_def handleScanRequest_def
      initialState_def rearCamera_def getNextStudent_def findIndex_def scanFrom.simps isPending_def)

text \<open>
  C8. A request to take a photo while a capture is in flight (\<open>isProcessing\<close>), or while
  the camera is not ready or no stream is held, returns at once: the state (pending frame,
  page buffer, the capture in flight) is unchanged and nothing is done.
\<close>

theorem capture_rejected_when_busy_or_no_device:
  assumes "isProcessing s \<or> \<not> cameraReady s \<or> stream s = None"
  shows "handleTakePhoto e s = (s, [])"
  using assms by (auto simp: handleTakePhoto_def)

theorem capture_rejected_when_busy_or_no_device_witness:
  "handleTakePhoto
     \<lparr>getUserMedia = (\<lambda>c. None), hasImageCapture = True, takePhoto = Some ''data:new'',
      canvasCapture = Some ''data:canvas'', fetchBlob = (\<lambda>d. Some d),
      uploadScans = (\<lambda>i fs. UploadResponse True None), getStudents = FetchNotSuccess\<rparr>
     (initialState\<lparr>stream := Some \<lparr>tracks = [1]\<rparr>, cameraReady := True, isProcessing := True,
                   currentPhoto := Some ''data:old''\<rparr>)
   = (initialState\<lparr>stream := Some \<lparr>tracks = [1]\<rparr>, cameraReady := True, isProcessing := True,
                   currentPhoto := Some ''data:old''\<rparr>, [])"
proof -
  let ?s = "initialState\<lparr>stream := Some \<lparr>tracks = [1]\<rparr>, cameraReady := True, isProcessing := True,
                   currentPhoto := Some ''data:old''\<rparr>"
  have h: "isProcessing ?s \<or> \<not> cameraReady ?s \<or> stream ?s = None" by simp
  from capture_rejected_when_busy_or_no_device [OF h] show ?thesis .
qed

text \<open>
  C9. The manual skip and the advance after a successful upload pick the same student,
  the one \<^verbatim>\<open>getNextStudent\<close> returns for the roster and current student of the render.
  In \<^verbatim>\<open>src/App.jsx\<close> with the second component both paths end in
  \<^verbatim>\<open>handleNextStudent\<close>; the selected student afterwards is the result of
  \<^verbatim>\<open>getNextStudent\<close> (none, and the session closed, when there is none). In
  \<^verbatim>\<open>unnamed/part_000\<close> with the first component the upload handler calls
  \<^verbatim>\<open>getNextStudent\<close> itself; whenever it returns a student, both paths select that
  student.
\<close>

theorem manual_and_automatic_advance_agree:
  "selectedStudent (fst (PhotoCapture_handleNextStudent (App_handleNextStudent s) s)) =
     getNextStudent (selectedStudent s) (students s) \<and>
   (fst (handlePhotosCaptured e (finalPhotos nowId now s) (s\<lparr>uploading := True\<rparr>)) = Returned True \<longrightarrow>
      selectedStudent
        (fst (handleFinish_b (handlePhotosCaptured e) (hasNextStudent s) (App_handleNextStudent s)
                onClose nowId now s)) =
      getNextStudent (selectedStudent s) (students s)) \<and>
   (\<forall>n. getNextStudent_p0 (selectedStudent s) (students s) = Some n \<longrightarrow>
      selectedStudent (fst (PhotoCapture_handleNextStudent (App_handleNextStudent_p0 s) s)) = Some n \<and>
      (fst (handlePhotosCaptured_p0 e (finalPhotos nowId now s) (s\<lparr>uploading := True\<rparr>)) = Returned True \<longrightarrow>
         selectedStudent (fst (handleFinish (handlePhotosCaptured_p0 e) nowId now s)) = Some n))"
proof (intro conjI allI impI)
  show "selectedStudent (fst (PhotoCapture_handleNextStudent (App_handleNextStudent s) s)) =
     getNextStudent (selectedStudent s) (students s)"
    by (simp add: PhotoCapture_handleNextStudent_def App_handleNextStudent_def split: option.splits)
next
  assume ok: "fst (handlePhotosCaptured e (finalPhotos nowId now s) (s\<lparr>uploading := True\<rparr>)) = Returned True"
  obtain r s1 ev where
    res: "handlePhotosCaptured e (finalPhotos nowId now s) (s\<lparr>uploading := True\<rparr>) = (r, s1, ev)"
    by (metis prod_cases3)
  with ok have r: "r = Returned True" by simp
  from handlePhotosCaptured_frame [OF res] r have "finalPhotos nowId now s \<noteq> []" by simp
  then have tot: "totalPhotos s \<noteq> 0" by (simp add: finalPhotos_empty)
  from handleFinish_b_result
    [of "handlePhotosCaptured e" nowId now s r s1 ev "hasNextStudent s" "App_handleNextStudent s" onClose,
     OF res tot] r
  show "selectedStudent
        (fst (handleFinish_b (handlePhotosCaptured e) (hasNextStudent s) (App_handleNextStudent s)
                onClose nowId now s)) =
      getNextStudent (selectedStudent s) (students s)"
    by (auto simp: hasNextStudent_def App_handleNextStudent_def onClose_def split: option.splits)
next
  fix n assume n: "getNextStudent_p0 (selectedStudent s) (students s) = Some n"
  then show "selectedStudent (fst (PhotoCapture_handleNextStudent (App_handleNextStudent_p0 s) s)) = Some n"
    by (simp add: PhotoCapture_handleNextStudent_def App_handleNextStudent_p0_def)
next
  fix n assume n: "getNextStudent_p0 (selectedStudent s) (students s) = Some n"
    and ok: "fst (handlePhotosCaptured_p0 e (finalPhotos nowId now s) (s\<lparr>uploading := True\<rparr>)) = Returned True"
  obtain r s1 ev where
    res: "handlePhotosCaptured_p0 e (finalPhotos nowId now s) (s\<lparr>uploading := True\<rparr>) = (r, s1, ev)"
    by (metis prod_cases3)
  with ok have r: "r = Returned True" by simp
  from handlePhotosCaptured_p0_frame [OF res] r have "finalPhotos nowId now s \<noteq> []" by simp
  then have tot: "totalPhotos s \<noteq> 0" by (simp add: finalPhotos_empty)
  have sel: "selectedStudent s1 = Some n"
    using res r n
    by (auto simp: handlePhotosCaptured_p0_def
        split: option.splits if_splits sum.splits upload_result.splits)
  from handleFinish_result [of "handlePhotosCaptured_p0 e" nowId now s r s1 ev, OF res tot] r sel
  show "selectedStudent (fst (handleFinish (handlePhotosCaptured_p0 e) nowId now s)) = Some n"
    by simp
qed


theorem manual_and_automatic_advance_agree_witness:
  "(let A = \<lparr>sid = ''a'', rollNumber = ''1'', name = ''A'', status = ''Pending'', isScanned = False\<rparr>;
        B = \<lparr>sid = ''b'', rollNumber = ''2'', name = ''B'', status = ''Absent'', isScanned = False\<rparr>;
        C = \<lparr>sid = ''c'', rollNumber = ''3'', name = ''C'', status = ''Pending'', isScanned = False\<rparr>;
        e = \<lparr>getUserMedia = (\<lambda>c. None), hasImageCapture = False, takePhoto = None,
              canvasCapture = None, fetchBlob = (\<lambda>d. Some d),
              uploadScans = (\<lambda>i fs. UploadResponse True None), getStudents = FetchNotSuccess\<rparr>;
        s = (handleScanRequest A (initialState\<lparr>students := [A, B, C]\<rparr>))\<lparr>currentPhoto := Some ''p''\<rparr>
    in selectedStudent (fst (PhotoCapture_handleNextStudent (App_handleNextStudent s) s)) = Some C \<and>
       selectedStudent
         (fst (handleFinish_b (handlePhotosCaptured e) (hasNextStudent s) (App_handleNextStudent s)
                 onClose 1 ''t'' s)) = Some C \<and>
       selectedStudent (fst (PhotoCapture_handleNextStudent (App_handleNextStudent_p0 s) s)) = Some C \<and>
       selectedStudent (fst (handleFinish (handlePhotosCaptured_p0 e) 1 ''t'' s)) = Some C)"
proof -
  let ?A = "\<lparr>sid = ''a'', rollNumber = ''1'', name = ''A'', status = ''Pending'', isScanned = False\<rparr>"
  let ?B = "\<lparr>sid = ''b'', rollNumber = ''2'', name = ''B'', status = ''Absent'', isScanned = False\<rparr>"
  let ?C = "\<lparr>sid = ''c'', rollNumber = ''3'', name = ''C'', status = ''Pending'', isScanned = False\<rparr>"
  let ?e = "\<lparr>getUserMedia = (\<lambda>c. None), hasImageCapture = False, takePhoto = None,
              canvasCapture = None, fetchBlob = (\<lambda>d. Some d),
              uploadScans = (\<lambda>i fs. UploadResponse True None), getStudents = FetchNotSuccess\<rparr>"
  let ?s = "(handleScanRequest ?A (initialState\<lparr>students := [?A, ?B, ?C]\<rparr>))\<lparr>currentPhoto := Some ''p''\<rparr>"
  have sel: "selectedStudent ?s = Some ?A" "students ?s = [?A, ?B, ?C]"
    by (simp_all add: handleScanRequest_def initialState_def)
  have nx: "getNextStudent (selectedStudent ?s) (students ?s) = Some ?C"
    by (simp add: sel getNextStudent_def findIndex_def scanFrom.simps isPending_def)
  have nx0: "getNextStudent_p0 (selectedStudent ?s) (students ?s) = Some ?C"
    by (simp add: sel getNextStudent_p0_def findIndex_def scanFrom.simps isUnscanned_def)
  have batch: "finalPhotos 1 ''t'' ?s =
      [\<lparr>photo_id = 1, data = ''p'', pageNumber = 1, timestamp = ''t'', studentRoll = ''1''\<rparr>]"
    by (simp add: finalPhotos_def handleScanRequest_def initialState_def studentDataRoll_def)
  have ok: "fst (handlePhotosCaptured ?e (finalPhotos 1 ''t'' ?s) (?s\<lparr>uploading := True\<rparr>)) = Returned True"
    by (simp only: batch) (simp add: handlePhotosCaptured_def handleScanRequest_def imageFiles_def)
  have ok0: "fst (handlePhotosCaptured_p0 ?e (finalPhotos 1 ''t'' ?s) (?s\<lparr>uploading := True\<rparr>)) = Returned True"
    using nx0 sel by (simp only: batch) (simp add: handlePhotosCaptured_p0_def imageFiles_def)
  note t = manual_and_automatic_advance_agree [of ?s ?e 1 "''t''"]
  have m: "selectedStudent (fst (PhotoCapture_handleNextStudent (App_handleNextStudent ?s) ?s)) = Some ?C"
    using t nx by simp
  have a: "selectedStudent
         (fst (handleFinish_b (handlePhotosCaptured ?e) (hasNextStudent ?s) (App_handleNextStudent ?s)
                 onClose 1 ''t'' ?s)) = Some ?C"
    using t nx ok by simp
  have m0: "selectedStudent (fst (PhotoCapture_handleNextStudent (App_handleNextStudent_p0 ?s) ?s)) = Some ?C"
    using t nx0 by blast
  have a0: "selectedStudent (fst (handleFinish (handlePhotosCaptured_p0 ?e) 1 ''t'' ?s)) = Some ?C"
    using t nx0 ok0 by blast
  from m a m0 a0 show ?thesis by (simp only: Let_def)
qed

text \<open>
  C10. For a non-empty batch, the \<open>i\<close>-th image of the submitted array (counted from
  1) becomes a file named \<^verbatim>\<open>page_i.jpg\<close> of type \<^verbatim>\<open>image/jpeg\<close> holding that
  image, in the order of the array; the request carries exactly these files. The files
  depend on the images and their positions only: two arrays with the same images in the
  same order give the same files, whatever \<open>pageNumber\<close>, \<open>photo_id\<close> or
  \<open>timestamp\<close> the pages store. Both copies of \<^verbatim>\<open>handlePhotosCaptured\<close> do so.
\<close>

theorem upload_files_named_by_position:
  assumes "photosArray \<noteq> []" and "selectedStudent a = Some st"
    and "\<forall>p \<in> set photosArray. fetchBlob e (data p) \<noteq> None"
  shows "\<exists>files.
           imageFiles (fetchBlob e) photosArray = Inr files \<and>
           length files = length photosArray \<and>
           (\<forall>i < length photosArray.
              fname (files ! i) = ''page_'' @ string_of_nat (i + 1) @ ''.jpg'' \<and>
              ftype (files ! i) = ''image/jpeg'' \<and>
              fetchBlob e (data (photosArray ! i)) = Some (blob (files ! i))) \<and>
           (\<exists>rest. snd (snd (handlePhotosCaptured e photosArray a)) = UploadScans (sid st) files # rest) \<and>
           (\<exists>rest. snd (snd (handlePhotosCaptured_p0 e photosArray a)) = UploadScans (sid st) files # rest) \<and>
           (\<forall>other. map data other = map data photosArray \<longrightarrow>
              imageFiles (fetchBlob e) other = Inr files)"
proof -
  from imageFilesFrom_total [OF assms(3)] obtain files
    where files: "imageFiles (fetchBlob e) photosArray = Inr files"
    by (auto simp: imageFiles_def)
  have len: "length files = length photosArray"
    using files imageFilesFrom_Inr [of "fetchBlob e" 0 photosArray files] by (simp add: imageFiles_def)
  have nth: "\<forall>i < length photosArray.
              fname (files ! i) = ''page_'' @ string_of_nat (i + 1) @ ''.jpg'' \<and>
              ftype (files ! i) = ''image/jpeg'' \<and>
              fetchBlob e (data (photosArray ! i)) = Some (blob (files ! i))"
    using files imageFilesFrom_Inr [of "fetchBlob e" 0 photosArray files] by (simp add: imageFiles_def)
  have indep: "\<forall>other. map data other = map data photosArray \<longrightarrow>
              imageFiles (fetchBlob e) other = Inr files"
  proof (intro allI impI)
    fix other :: "photo list" assume "map data other = map data photosArray"
    from imageFilesFrom_data_only [OF this]
    have "imageFilesFrom (fetchBlob e) 0 other = imageFilesFrom (fetchBlob e) 0 photosArray" .
    with files show "imageFiles (fetchBlob e) other = Inr files" by (simp only: imageFiles_def)
  qed
  have ev1: "\<exists>rest. snd (snd (handlePhotosCaptured e photosArray a)) = UploadScans (sid st) files # rest"
    by (simp only: handlePhotosCaptured_events [OF assms(2) assms(1) files]) blast
  have ev2: "\<exists>rest. snd (snd (handlePhotosCaptured_p0 e photosArray a)) = UploadScans (sid st) files # rest"
    by (simp only: handlePhotosCaptured_p0_events [OF assms(2) assms(1) files]) blast
  show ?thesis
    by (rule exI [of _ files]) (intro conjI; fact)
qed


theorem upload_files_named_by_position_witness:
  "\<exists>files.
     imageFiles (\<lambda>d. Some (''blob:'' @ d))
       [\<lparr>photo_id = 5, data = ''x'', pageNumber = 7, timestamp = ''t'', studentRoll = ''1''\<rparr>,
        \<lparr>photo_id = 6, data = ''y'', pageNumber = 7, timestamp = ''t'', studentRoll = ''1''\<rparr>] = Inr files \<and>
     map fname files = [''page_1.jpg'', ''page_2.jpg''] \<and>
     map ftype files = [''image/jpeg'', ''image/jpeg''] \<and>
     map blob files = [''blob:x'', ''blob:y'']"
proof -
  let ?e = "\<lparr>getUserMedia = (\<lambda>c. None), hasImageCapture = False, takePhoto = None,
             canvasCapture = None, fetchBlob = (\<lambda>d. Some (''blob:'' @ d)),
             uploadScans = (\<lambda>i fs. UploadResponse True None), getStudents = FetchNotSuccess\<rparr>"
  let ?ps = "[\<lparr>photo_id = 5, data = ''x'', pageNumber = 7, timestamp = ''t'', studentRoll = ''1''\<rparr>,
        \<lparr>photo_id = 6, data = ''y'', pageNumber = 7, timestamp = ''t'', studentRoll = ''1''\<rparr>]"
  let ?st = "\<lparr>sid = ''a'', rollNumber = ''1'', name = ''A'', status = ''Pending'', isScanned = False\<rparr>"
  let ?a = "handleScanRequest ?st initialState"
  have h1: "?ps \<noteq> []" by simp
  have h2: "selectedStudent ?a = Some ?st" by (simp add: handleScanRequest_def)
  have h3: "\<forall>p \<in> set ?ps. fetchBlob ?e (data p) \<noteq> None" by simp
  from upload_files_named_by_position [OF h1 h2 h3] obtain files where
    f: "imageFiles (fetchBlob ?e) ?ps = Inr files" "length files = length ?ps"
    and n: "\<forall>i < length ?ps.
              fname (files ! i) = ''page_'' @ string_of_nat (i + 1) @ ''.jpg'' \<and>
              ftype (files ! i) = ''image/jpeg'' \<and>
              fetchBlob ?e (data (?ps ! i)) = Some (blob (files ! i))" by blast
  from f(2) obtain f0 f1 where fs: "files = [f0, f1]"
    by (cases files; cases "tl files") auto
  have "fname (files ! 0) = ''page_1.jpg''" "ftype (files ! 0) = ''image/jpeg''"
    "blob (files ! 0) = ''blob:x''"
    using n [rule_format, of 0] by (simp_all add: string_of_nat.simps)
  moreover have "fname (files ! 1) = ''page_2.jpg''" "ftype (files ! 1) = ''image/jpeg''"
    "blob (files ! 1) = ''blob:y''"
    using n [rule_format, of 1] by (simp_all add: string_of_nat.simps)
  ultimately show ?thesis using fs f(1) by simp
qed

end
